theory Spec2Isabelle
  imports Main "HOL-Library.Word" "HOL-Library.AList"
begin

section \<open>Meeting recording and summarisation pipeline (src/app/actions/Summary.ts)\<close>

text \<open>
  A shallow embedding of the server actions of \<^verbatim>\<open>Summary.ts\<close>: the in-memory chunk
  store, the transcription and summarisation orchestrators, name resolution, persistence
  and the two finalisers \<^verbatim>\<open>stopRecorder\<close> and \<^verbatim>\<open>stopMeeting\<close>.

  Modelling conventions.
  \<^item> A JavaScript string is a \<open>string\<close>: a list of code units below 256. \<open>length\<close>
    and \<open>take\<close> are \<^verbatim>\<open>.length\<close> and \<^verbatim>\<open>.slice(0, n)\<close> / \<^verbatim>\<open>.substring(0, n)\<close>.
  \<^item> A timestamp (\<^verbatim>\<open>number\<close>) is an \<open>int\<close> of epoch milliseconds. \<^verbatim>\<open>toISOString\<close>
    throws a \<^verbatim>\<open>RangeError\<close> outside the range of \<^verbatim>\<open>Date\<close> (\<open>date_ok\<close>); inside it the
    rendering is kept symbolic (\<open>ISO t\<close>). \<^verbatim>\<open>NaN\<close>, infinities and fractions are outside
    the model.
  \<^item> A \<^verbatim>\<open>Record\<close> object is a plain object: its own properties are an association list
    in insertion order, and a read that finds no own property continues in the prototype
    chain, which ends in \<^verbatim>\<open>Object.prototype\<close>. An assignment to \<^verbatim>\<open>__proto__\<close> replaces the
    prototype instead of creating a property.
  \<^item> Every awaited call to a collaborator (clock, auth, database, HTTP services, file
    system) is answered by an oracle of the environment \<open>env\<close>. The oracle is indexed by
    the number of collaborator calls made so far, so a collaborator may answer each call
    differently. The calls made are recorded in a trace.
  \<^item> An exception is the left injection of a sum; a \<^verbatim>\<open>try/catch\<close> is a case
    distinction on it. A loop with no bound in the source is a \<open>partial_function\<close> in
    the option monad: \<open>None\<close> is a run that never returns.
  \<^item> Each server action runs to completion before the next starts; interleaving of
    actions at their \<^verbatim>\<open>await\<close> points is outside the model. Logging and the waits
    between polls and retries are not modelled.
  \<^item> Of the limits of the engine, the model has the number of arguments of one call
    (\<open>env_max_arguments\<close>); memory, and the lengths of strings and arrays, are unbounded.
\<close>

subsection \<open>Strings as JavaScript sees them\<close>

text \<open>White space and line terminators removed by \<^verbatim>\<open>String.prototype.trim\<close>, among the
  code units below 256: TAB, LF, VT, FF, CR, SPACE and NBSP.\<close>

definition is_space :: "char \<Rightarrow> bool" where
  "is_space c = (let n = (of_char c :: nat) in (9 \<le> n \<and> n \<le> 13) \<or> n = 32 \<or> n = 160)"

definition trim :: "string \<Rightarrow> string" where
  "trim s = rev (dropWhile is_space (rev (dropWhile is_space s)))"

text \<open>\<^verbatim>\<open>s.split(re)\<close> for a regular expression matching exactly one code unit of a class:
  \<open>n\<close> separators give \<open>n + 1\<close> pieces, and the empty string gives one empty piece.\<close>

fun js_split :: "(char \<Rightarrow> bool) \<Rightarrow> string \<Rightarrow> string list" where
  "js_split sep [] = [[]]"
| "js_split sep (c # cs) =
     (if sep c then [] # js_split sep cs
      else (case js_split sep cs of [] \<Rightarrow> [[c]] | x # xs \<Rightarrow> (c # x) # xs))"

text \<open>The class \<^verbatim>\<open>/[.?!]/\<close>.\<close>

definition sentence_end :: "char \<Rightarrow> bool" where
  "sentence_end c = (c = CHR ''.'' \<or> c = CHR ''?'' \<or> c = CHR ''!'')"

fun js_join :: "string \<Rightarrow> string list \<Rightarrow> string" where
  "js_join sep [] = []"
| "js_join sep [x] = x"
| "js_join sep (x # y # ys) = x @ sep @ js_join sep (y # ys)"

definition starts_with :: "string \<Rightarrow> string \<Rightarrow> bool" where
  "starts_with s p = (take (length p) s = p)"

fun js_includes :: "string \<Rightarrow> string \<Rightarrow> bool" where
  "js_includes [] sub = (sub = [])"
| "js_includes (c # cs) sub = (starts_with (c # cs) sub \<or> js_includes cs sub)"

definition digit_char :: "nat \<Rightarrow> char" where
  "digit_char d = ''0123456789'' ! d"

fun string_of_nat :: "nat \<Rightarrow> string" where
  "string_of_nat n =
     (if n < 10 then [digit_char n] else string_of_nat (n div 10) @ [digit_char (n mod 10)])"

text \<open>Truthiness of an optional string: \<^verbatim>\<open>undefined\<close>, \<^verbatim>\<open>null\<close> and \<^verbatim>\<open>''\<close> are falsy.\<close>

definition truthy_str :: "string option \<Rightarrow> bool" where
  "truthy_str v = (case v of None \<Rightarrow> False | Some s \<Rightarrow> s \<noteq> [])"

text \<open>\<^verbatim>\<open>a || b\<close> on optional strings.\<close>

definition or_else :: "string option \<Rightarrow> string option \<Rightarrow> string option" where
  "or_else a b = (if truthy_str a then a else b)"

subsection \<open>JSON values\<close>

text \<open>The value of \<^verbatim>\<open>JSON.parse\<close>. The code reads two things of a number, kept as they
  are: whether it is truthy, and how \<^verbatim>\<open>String\<close> renders it. An object is the list of its
  own properties.\<close>

datatype json =
    JNull
  | JBool bool
  | JNum bool string
  | JStr string
  | JArr "json list"
  | JObj "(string \<times> json) list"

text \<open>Truthiness of a value that may be \<^verbatim>\<open>undefined\<close> (\<open>None\<close>).\<close>

fun js_truthy :: "json option \<Rightarrow> bool" where
  "js_truthy None = False"
| "js_truthy (Some JNull) = False"
| "js_truthy (Some (JBool b)) = b"
| "js_truthy (Some (JNum nonzero rendering)) = nonzero"
| "js_truthy (Some (JStr s)) = (s \<noteq> [])"
| "js_truthy (Some (JArr xs)) = True"
| "js_truthy (Some (JObj kvs)) = True"

text \<open>\<^verbatim>\<open>v?.k\<close> for a key that no primitive wrapper and no array defines.\<close>

fun get_prop :: "json option \<Rightarrow> string \<Rightarrow> json option" where
  "get_prop (Some (JObj kvs)) k = map_of kvs k"
| "get_prop v k = None"

text \<open>\<^verbatim>\<open>data[0]\<close> where \<^verbatim>\<open>data\<close> is an array.\<close>

fun first_elem :: "json \<Rightarrow> json option" where
  "first_elem (JArr (x # xs)) = Some x"
| "first_elem v = None"

fun is_array :: "json \<Rightarrow> bool" where
  "is_array (JArr xs) = True"
| "is_array v = False"

text \<open>\<^verbatim>\<open>String(v)\<close>, as a template literal renders a value.\<close>

fun js_to_string :: "json \<Rightarrow> string" where
  "js_to_string JNull = ''null''"
| "js_to_string (JBool b) = (if b then ''true'' else ''false'')"
| "js_to_string (JNum nonzero rendering) = rendering"
| "js_to_string (JStr s) = s"
| "js_to_string (JArr xs) =
     js_join '','' (map (\<lambda>x. if x = JNull then [] else js_to_string x) xs)"
| "js_to_string (JObj kvs) = ''[object Object]''"

subsection \<open>Data model\<close>

type_synonym blob = "8 word list"

record participantDataType =
  p_id :: string
  p_name :: "string option"
  p_offset :: int
  p_chunks :: "blob list"
  p_isFinished :: bool

datatype iso_time = ISO int

text \<open>The range in which \<^verbatim>\<open>new Date(t).toISOString()\<close> answers; outside it, it throws a
  \<^verbatim>\<open>RangeError\<close>.\<close>

definition date_ok :: "int \<Rightarrow> bool" where
  "date_ok t = (- 8640000000000000 \<le> t \<and> t \<le> 8640000000000000)"

text \<open>The own property names of \<^verbatim>\<open>Object.prototype\<close> in Node.js. Every plain object
  inherits these members: functions, and the accessor \<^verbatim>\<open>__proto__\<close>, whose getter answers
  the prototype of the object.\<close>

definition object_prototype_names :: "string list" where
  "object_prototype_names =
     [''constructor'', ''__defineGetter__'', ''__defineSetter__'', ''hasOwnProperty'',
      ''__lookupGetter__'', ''__lookupSetter__'', ''isPrototypeOf'', ''propertyIsEnumerable'',
      ''toString'', ''valueOf'', ''__proto__'', ''toLocaleString'']"

definition inherited_member :: "string \<Rightarrow> bool" where
  "inherited_member k = (k \<in> set object_prototype_names)"

text \<open>The value of a resolved name: a string, or the member of \<^verbatim>\<open>Object.prototype\<close> that a
  read of the member names under that key finds (a function, or for \<^verbatim>\<open>__proto__\<close> the
  object \<^verbatim>\<open>Object.prototype\<close> itself); such a member is truthy.\<close>

datatype js_name = Text string | Inherited string

text \<open>How a template literal renders a name in Node.js.\<close>

definition name_string :: "js_name \<Rightarrow> string" where
  "name_string n =
     (case n of
        Text s \<Rightarrow> s
      | Inherited k \<Rightarrow>
          if k = ''__proto__'' then ''[object Object]''
          else if k = ''constructor'' then ''function Object() { [native code] }''
          else ''function '' @ k @ ''() { [native code] }'')"

record transcript_entry =
  t_id :: string
  t_name :: "js_name option"
  t_text :: string

record MeetingSummary =
  summary :: string
  keyPoints :: "string list"
  participants :: "string list"
  participantNames :: "(string \<times> js_name) list"
  transcriptions :: "transcript_entry list"
  duration :: int
  startTime :: iso_time
  endTime :: iso_time

text \<open>The module state: the own properties of \<^verbatim>\<open>participantData\<close>, its prototype, and
  \<^verbatim>\<open>meetingStartTime\<close> (\<open>None\<close> is \<^verbatim>\<open>null\<close>). The prototype of the store is
  \<^verbatim>\<open>Object.prototype\<close> (\<open>None\<close>) until a record is assigned to the key \<^verbatim>\<open>__proto__\<close>: from
  then on it is that record, whose own prototype is \<^verbatim>\<open>Object.prototype\<close>.\<close>

record state =
  participantData :: "(string \<times> participantDataType) list"
  participantDataProto :: "participantDataType option"
  meetingStartTime :: "int option"

definition initial_state :: state where
  "initial_state = \<lparr>participantData = [], participantDataProto = None, meetingStartTime = None\<rparr>"

text \<open>What the code throws: the two built-in errors it can run into, and anything a
  collaborator throws.\<close>

datatype error = TypeError | RangeError | Thrown string

subsection \<open>Reading and writing the store\<close>

text \<open>What \<^verbatim>\<open>participantData[k]\<close> finds: nothing (\<^verbatim>\<open>undefined\<close>), the record stored under
  the key, the record that is the prototype of the store, or a value of another kind,
  of which only the truthiness matters: a function of \<^verbatim>\<open>Object.prototype\<close>,
  \<^verbatim>\<open>Object.prototype\<close> itself, or the value of a field of the prototype record. None of
  these other values has a property \<^verbatim>\<open>chunks\<close>.\<close>

datatype found =
    Missing
  | OwnRecord participantDataType
  | ProtoRecord participantDataType
  | Foreign bool

fun found_truthy :: "found \<Rightarrow> bool" where
  "found_truthy Missing = False"
| "found_truthy (OwnRecord p) = True"
| "found_truthy (ProtoRecord p) = True"
| "found_truthy (Foreign b) = b"

text \<open>The own properties of a record as \<^verbatim>\<open>setNewParticipantServerAction\<close> builds it:
  \<^verbatim>\<open>id\<close>, \<^verbatim>\<open>name\<close> when it is given, \<^verbatim>\<open>offset\<close>, \<^verbatim>\<open>chunks\<close> and \<^verbatim>\<open>isFinished\<close>.\<close>

definition proto_field :: "participantDataType \<Rightarrow> string \<Rightarrow> found option" where
  "proto_field r k =
     (if k = ''id'' then Some (Foreign (p_id r \<noteq> []))
      else if k = ''name'' then (case p_name r of None \<Rightarrow> None | Some n \<Rightarrow> Some (Foreign (n \<noteq> [])))
      else if k = ''offset'' then Some (Foreign (p_offset r \<noteq> 0))
      else if k = ''chunks'' then Some (Foreign True)
      else if k = ''isFinished'' then Some (Foreign (p_isFinished r))
      else None)"

text \<open>The read \<^verbatim>\<open>participantData[k]\<close>: an own property first, then the prototype record
  if there is one, then \<^verbatim>\<open>Object.prototype\<close>.\<close>

definition lookup_participant :: "state \<Rightarrow> string \<Rightarrow> found" where
  "lookup_participant st k =
     (case map_of (participantData st) k of
        Some p \<Rightarrow> OwnRecord p
      | None \<Rightarrow>
          (case participantDataProto st of
             Some r \<Rightarrow>
               if k = ''__proto__'' then ProtoRecord r
               else (case proto_field r k of
                       Some v \<Rightarrow> v
                     | None \<Rightarrow> if inherited_member k then Foreign True else Missing)
           | None \<Rightarrow> if inherited_member k then Foreign True else Missing))"

text \<open>The assignment \<^verbatim>\<open>participantData[k] = r\<close> of a record: an own property is
  overwritten; with no own property, the key \<^verbatim>\<open>__proto__\<close> reaches the inherited setter,
  which makes \<open>r\<close> the prototype of the store, and any other key becomes an own property.\<close>

definition assign_participant :: "string \<Rightarrow> participantDataType \<Rightarrow> state \<Rightarrow> state" where
  "assign_participant k r st =
     (if k = ''__proto__'' \<and> map_of (participantData st) k = None
      then st\<lparr>participantDataProto := Some r\<rparr>
      else st\<lparr>participantData := AList.update k r (participantData st)\<rparr>)"

subsection \<open>Property order of an object\<close>

text \<open>\<^verbatim>\<open>Object.keys\<close> and \<^verbatim>\<open>Object.values\<close> list the array-index keys first, in
  ascending numeric order, then the other string keys in insertion order. An array index
  is a canonical decimal numeral below \<open>2^32 - 1\<close>.\<close>

definition is_digit :: "char \<Rightarrow> bool" where
  "is_digit c = (c \<in> set ''0123456789'')"

definition nat_of_digits :: "string \<Rightarrow> nat" where
  "nat_of_digits s = foldl (\<lambda>a c. 10 * a + (of_char c - 48)) 0 s"

definition is_array_index :: "string \<Rightarrow> bool" where
  "is_array_index k =
     (k \<noteq> [] \<and> list_all is_digit k \<and> (hd k \<noteq> CHR ''0'' \<or> k = ''0'')
      \<and> nat_of_digits k < 4294967295)"

definition object_entries :: "(string \<times> 'a) list \<Rightarrow> (string \<times> 'a) list" where
  "object_entries obj =
     sort_key (\<lambda>kv. nat_of_digits (fst kv)) (filter (\<lambda>kv. is_array_index (fst kv)) obj)
     @ filter (\<lambda>kv. \<not> is_array_index (fst kv)) obj"

definition object_values :: "(string \<times> 'a) list \<Rightarrow> 'a list" where
  "object_values obj = map snd (object_entries obj)"

text \<open>Truthiness of \<^verbatim>\<open>meetingStartTime\<close>: \<^verbatim>\<open>null\<close> and \<open>0\<close> are falsy.\<close>

definition clock_set :: "int option \<Rightarrow> bool" where
  "clock_set c = (case c of None \<Rightarrow> False | Some t \<Rightarrow> t \<noteq> 0)"

subsection \<open>Chunk store actions\<close>

text \<open>Each action answers \<^verbatim>\<open>true\<close>; \<^verbatim>\<open>Init\<close> and \<^verbatim>\<open>setParticipantBlobChunk\<close> can throw
  instead (\<open>Inl\<close>), and the state is what the action has made of it by then. \<^verbatim>\<open>Init\<close> sets
  the clock and deletes the own keys of the store before it logs the start time (line
  355), where \<^verbatim>\<open>toISOString\<close> throws outside the range of \<^verbatim>\<open>Date\<close>.\<close>

definition Init :: "int \<Rightarrow> state \<Rightarrow> (error + bool) \<times> state" where
  "Init start st =
     (let st1 = st\<lparr>participantData := [], meetingStartTime := Some start\<rparr>
      in if date_ok start then (Inr True, st1) else (Inl RangeError, st1))"

definition setNewParticipantServerAction :: "participantDataType \<Rightarrow> state \<Rightarrow> bool \<times> state" where
  "setNewParticipantServerAction p st =
     (True, assign_participant (p_id p) (p\<lparr>p_chunks := [], p_isFinished := False\<rparr>) st)"

text \<open>Lines 365-391. The clock is set before line 370 renders it; the record is
  registered when the read of line 374 is falsy; line 387 throws a \<^verbatim>\<open>TypeError\<close> when what
  line 386 reads has no \<^verbatim>\<open>chunks\<close>.\<close>

definition setParticipantBlobChunk ::
  "string \<Rightarrow> blob \<Rightarrow> int \<Rightarrow> state \<Rightarrow> (error + bool) \<times> state" where
  "setParticipantBlobChunk ident blob timestamp st =
     (let st1 = (if \<not> clock_set (meetingStartTime st)
                 then st\<lparr>meetingStartTime := Some timestamp\<rparr> else st)
      in if \<not> clock_set (meetingStartTime st) \<and> \<not> date_ok timestamp then (Inl RangeError, st1)
         else
           (let st2 = (if \<not> found_truthy (lookup_participant st1 ident)
                       then assign_participant ident
                              \<lparr>p_id = ident, p_name = None, p_offset = timestamp,
                               p_chunks = [], p_isFinished = False\<rparr> st1
                       else st1)
            in case lookup_participant st2 ident of
                 OwnRecord p \<Rightarrow>
                   (Inr True, st2\<lparr>participantData := AList.update ident
                                   (p\<lparr>p_chunks := p_chunks p @ [blob], p_offset := timestamp\<rparr>)
                                   (participantData st2)\<rparr>)
               | ProtoRecord r \<Rightarrow>
                   (Inr True, st2\<lparr>participantDataProto :=
                                   Some (r\<lparr>p_chunks := p_chunks r @ [blob], p_offset := timestamp\<rparr>)\<rparr>)
               | Missing \<Rightarrow> (Inl TypeError, st2)
               | Foreign b \<Rightarrow> (Inl TypeError, st2)))"

subsection \<open>Collaborators\<close>

record auth_ctx =
  auth_orgId :: "string option"
  auth_userId :: "string option"

text \<open>The reply of the \<^verbatim>\<open>rooms\<close> query: \<^verbatim>\<open>roomData?.org_id\<close> and \<^verbatim>\<open>roomError\<close>.\<close>

record room_reply =
  room_org_id :: "string option"
  room_error :: "string option"

text \<open>The public user data of a membership; each field stands for the snake-case
  property or, when that is falsy, the camel-case one.\<close>

record membership =
  m_user_id :: "string option"
  m_first_name :: "string option"
  m_last_name :: "string option"
  m_username :: "string option"
  m_identifier :: "string option"

record job =
  job_status :: string
  job_id :: string

record poll_result =
  poll_status :: string
  poll_text :: "string option"

text \<open>An HTTP response read once as text; \<open>resp_status\<close> is its status code, a number of
  three digits; \<open>resp_json\<close> is what \<^verbatim>\<open>JSON.parse\<close> makes of the text, \<open>None\<close> when it
  throws.\<close>

record http_response =
  resp_status :: nat
  resp_status_text :: string
  resp_content_type :: "string option"
  resp_text :: string
  resp_json :: "json option"

record summary_result =
  r_summary :: string
  r_keyPoints :: "string list"

record insert_row =
  room_id :: string
  org_id :: string
  created_by :: string
  summary_text :: string
  key_points :: "string list"
  row_participants :: "string list"
  participant_names :: "(string \<times> js_name) list"
  duration_ms :: int
  start_time :: iso_time
  end_time :: iso_time
  row_transcriptions :: "transcript_entry list"

record saved_row =
  row_id :: string
  row_created_at :: string

record insert_reply =
  ins_data :: "saved_row list option"
  ins_error :: "string option"

text \<open>One collaborator call, as the trace records it.\<close>

datatype call =
    CallNow
  | CallAuth
  | CallRoom string
  | CallMembers string nat
  | CallWriteTemp blob
  | CallUpload blob
  | CallSubmit "string option"
  | CallPoll string
  | CallSummarize string
  | CallInsert insert_row
  | CallVerify string

text \<open>The environment. The first argument of an oracle is the number of calls made
  before this one. \<open>Inl\<close> is a rejected promise, or an answer of a shape that makes the
  code throw as soon as it reads it (\<^verbatim>\<open>null\<close> where an object is expected).
  \<open>env_max_arguments\<close> is the number of arguments the engine accepts in one call where
  \<^verbatim>\<open>stopMeeting\<close> runs: spreading a longer array into a call throws a \<^verbatim>\<open>RangeError\<close>.\<close>

record env =
  env_now :: "nat \<Rightarrow> int"
  env_max_arguments :: nat
  env_auth :: "nat \<Rightarrow> error + auth_ctx"
  env_room :: "nat \<Rightarrow> string \<Rightarrow> error + room_reply"
  env_clerk_secret :: "string option"
  env_members :: "nat \<Rightarrow> string \<Rightarrow> nat \<Rightarrow> error + membership list option"
  env_write_temp :: "nat \<Rightarrow> blob \<Rightarrow> error option"
  env_upload :: "nat \<Rightarrow> blob \<Rightarrow> error + string option"
  env_submit :: "nat \<Rightarrow> string option \<Rightarrow> error + job"
  env_poll :: "nat \<Rightarrow> string \<Rightarrow> error + poll_result"
  env_summarize :: "nat \<Rightarrow> string \<Rightarrow> error + http_response"
  env_default_org :: "string option"
  env_system_user :: "string option"
  env_insert :: "nat \<Rightarrow> insert_row \<Rightarrow> error + insert_reply"
  env_verify :: "nat \<Rightarrow> string \<Rightarrow> error option"

subsection \<open>Name resolution: getOrganizationMemberNames\<close>

text \<open>The pagination loop (\<^verbatim>\<open>while (true)\<close>, lines 102-135). \<open>Inr None\<close> from the oracle
  is a response that is not ok; \<open>Inr (Some ms)\<close> is the list of memberships of the page.\<close>

partial_function (option) fetch_memberships ::
  "(nat \<Rightarrow> string \<Rightarrow> nat \<Rightarrow> error + membership list option) \<Rightarrow> string \<Rightarrow> nat
     \<Rightarrow> membership list \<Rightarrow> call list \<Rightarrow> ((error + membership list) \<times> call list) option" where
  "fetch_memberships members org page allMemberships w =
     (let off = (page - 1) * 500; w1 = w @ [CallMembers org off] in
      case members (length w) org off of
        Inl e \<Rightarrow> Some (Inl e, w1)
      | Inr None \<Rightarrow> Some (Inr allMemberships, w1)
      | Inr (Some ms) \<Rightarrow>
          if length ms = 0 then Some (Inr allMemberships, w1)
          else if length ms < 500 then Some (Inr (allMemberships @ ms), w1)
          else fetch_memberships members org (page + 1) (allMemberships @ ms) w1)"

definition trimmed :: "string option \<Rightarrow> string option" where
  "trimmed v = (if truthy_str v then map_option trim v else v)"

definition member_name :: "membership \<Rightarrow> string" where
  "member_name m =
     (let first = trimmed (m_first_name m);
          last = trimmed (m_last_name m);
          identifier = m_identifier m;
          emailPrefix =
            (case identifier of
               None \<Rightarrow> None
             | Some i \<Rightarrow> if i \<noteq> [] \<and> CHR ''@'' \<in> set i
                         then Some (takeWhile (\<lambda>c. c \<noteq> CHR ''@'') i) else Some i)
      in if truthy_str first \<or> truthy_str last
         then js_join '' '' [n. Some n \<leftarrow> filter truthy_str [first, last]]
         else (case or_else (m_username m) (or_else emailPrefix (Some ''Member'')) of
                 None \<Rightarrow> ''Member'' | Some n \<Rightarrow> n))"

text \<open>The own properties of \<^verbatim>\<open>nameMap\<close> (line 159). A name is a string, and the inherited
  setter of \<^verbatim>\<open>__proto__\<close> ignores a string: that key gets no property.\<close>

definition name_map :: "membership list \<Rightarrow> (string \<Rightarrow> string option)" where
  "name_map ms =
     fold (\<lambda>m nm. if truthy_str (m_user_id m)
                    then (case m_user_id m of
                            None \<Rightarrow> nm
                          | Some u \<Rightarrow> if u = ''__proto__'' then nm else nm(u \<mapsto> member_name m))
                    else nm) ms Map.empty"

definition getOrganizationMemberNames ::
  "env \<Rightarrow> string option \<Rightarrow> call list
     \<Rightarrow> ((error + (string \<Rightarrow> string option)) \<times> call list) option" where
  "getOrganizationMemberNames e orgId w =
     (case orgId of
        None \<Rightarrow> Some (Inr Map.empty, w)
      | Some org \<Rightarrow>
          if org = [] then Some (Inr Map.empty, w)
          else if \<not> truthy_str (env_clerk_secret e) then Some (Inr Map.empty, w)
          else (case fetch_memberships (env_members e) org 1 [] w of
                  None \<Rightarrow> None
                | Some (Inl err, w') \<Rightarrow> Some (Inr Map.empty, w')
                | Some (Inr allMemberships, w') \<Rightarrow> Some (Inr (name_map allMemberships), w')))"

subsection \<open>Transcription: transcribeWithAssemblyAI\<close>

text \<open>The polling loop (lines 199-209) with its variables \<^verbatim>\<open>status\<close> and \<^verbatim>\<open>result\<close>;
  \<open>Inl\<close> is a poll that throws.\<close>

partial_function (option) poll_loop ::
  "(nat \<Rightarrow> string \<Rightarrow> error + poll_result) \<Rightarrow> string \<Rightarrow> string \<Rightarrow> poll_result option
     \<Rightarrow> call list \<Rightarrow> ((error + string \<times> poll_result option) \<times> call list) option" where
  "poll_loop poll jid status result w =
     (if status \<noteq> ''completed'' \<and> status \<noteq> ''error''
      then (case poll (length w) jid of
              Inl e \<Rightarrow> Some (Inl e, w @ [CallPoll jid])
            | Inr r \<Rightarrow> poll_loop poll jid (poll_status r) (Some r) (w @ [CallPoll jid]))
      else Some (Inr (status, result), w))"

text \<open>The \<^verbatim>\<open>try\<close> block (lines 177-216); \<open>Inl\<close> is an exception raised inside it. A job
  that is \<^verbatim>\<open>completed\<close> at submission leaves \<^verbatim>\<open>result\<close> null, and reading
  \<^verbatim>\<open>result.text\<close> throws there.\<close>

definition transcribe_try ::
  "env \<Rightarrow> blob \<Rightarrow> call list \<Rightarrow> ((error + string) \<times> call list) option" where
  "transcribe_try e blob w1 =
     (let w2 = w1 @ [CallUpload blob] in
      case env_upload e (length w1) blob of
        Inl err \<Rightarrow> Some (Inl err, w2)
      | Inr upload_url \<Rightarrow>
          (let w3 = w2 @ [CallSubmit upload_url] in
           case env_submit e (length w2) upload_url of
             Inl err \<Rightarrow> Some (Inl err, w3)
           | Inr j \<Rightarrow>
               (case poll_loop (env_poll e) (job_id j) (job_status j) None w3 of
                  None \<Rightarrow> None
                | Some (Inl err, w4) \<Rightarrow> Some (Inl err, w4)
                | Some (Inr (status, result), w4) \<Rightarrow>
                    if status = ''completed''
                    then (case result of
                            None \<Rightarrow> Some (Inl TypeError, w4)
                          | Some r \<Rightarrow>
                              Some (Inr (case poll_text r of None \<Rightarrow> [] | Some t \<Rightarrow> t), w4))
                    else Some (Inr [], w4))))"

text \<open>\<^verbatim>\<open>blobToTempFile\<close> runs before the \<^verbatim>\<open>try\<close>: its failure leaves the function. The
  \<^verbatim>\<open>catch\<close> turns every exception of the block into the empty string. Removing the
  temporary file cannot throw.\<close>

definition transcribeWithAssemblyAI ::
  "env \<Rightarrow> blob \<Rightarrow> call list \<Rightarrow> ((error + string) \<times> call list) option" where
  "transcribeWithAssemblyAI e blob w =
     (case env_write_temp e (length w) blob of
        Some err \<Rightarrow> Some (Inl err, w @ [CallWriteTemp blob])
      | None \<Rightarrow>
          (case transcribe_try e blob (w @ [CallWriteTemp blob]) of
             None \<Rightarrow> None
           | Some (Inl err, w') \<Rightarrow> Some (Inr [], w')
           | Some (Inr txt, w') \<Rightarrow> Some (Inr txt, w')))"

subsection \<open>Summarisation: summarizeWithHuggingFace\<close>

text \<open>Lines 330-334.\<close>

definition key_points :: "string \<Rightarrow> string list" where
  "key_points txt = take 5 (filter (\<lambda>t. length t > 4) (map trim (js_split sentence_end txt)))"

text \<open>\<^verbatim>\<open>data?.error?.includes('loading') || data?.error?.includes('is currently loading')\<close>:
  a string searches for a substring, an array for an element, \<^verbatim>\<open>null\<close> and \<^verbatim>\<open>undefined\<close>
  short-circuit, and any other value has no method \<^verbatim>\<open>includes\<close>.\<close>

fun includes_loading :: "json option \<Rightarrow> error + bool" where
  "includes_loading None = Inr False"
| "includes_loading (Some JNull) = Inr False"
| "includes_loading (Some (JStr s)) =
     Inr (js_includes s ''loading'' \<or> js_includes s ''is currently loading'')"
| "includes_loading (Some (JArr xs)) =
     Inr (JStr ''loading'' \<in> set xs \<or> JStr ''is currently loading'' \<in> set xs)"
| "includes_loading (Some v) = Inl TypeError"

text \<open>Lines 315-322; \<^verbatim>\<open>undefined\<close> cannot be the result, as the chain ends in \<^verbatim>\<open>''\<close>.\<close>

definition pick :: "json option \<Rightarrow> json" where
  "pick v = (case v of Some x \<Rightarrow> x | None \<Rightarrow> JStr [])"

definition extract_text :: "json \<Rightarrow> json" where
  "extract_text data =
     (if is_array data \<and> js_truthy (get_prop (first_elem data) ''summary_text'')
      then pick (get_prop (first_elem data) ''summary_text'')
      else if is_array data \<and> js_truthy (get_prop (first_elem data) ''generated_text'')
      then pick (get_prop (first_elem data) ''generated_text'')
      else (case data of
              JStr s \<Rightarrow> JStr s
            | _ \<Rightarrow>
                if js_truthy (get_prop (Some data) ''summary_text'')
                then pick (get_prop (Some data) ''summary_text'')
                else if js_truthy (get_prop (Some data) ''generated_text'')
                then pick (get_prop (Some data) ''generated_text'')
                else JStr []))"

text \<open>Lines 314-338: a text that is not a string has no method \<^verbatim>\<open>split\<close>.\<close>

definition summary_of :: "json \<Rightarrow> error + summary_result" where
  "summary_of data =
     (let txt = extract_text data in
      if \<not> js_truthy (Some txt)
      then Inr \<lparr>r_summary = ''No summary returned from HuggingFace API.'',
                r_keyPoints = [''No summary available'']\<rparr>
      else (case txt of
              JStr s \<Rightarrow> Inr \<lparr>r_summary = s, r_keyPoints = key_points s\<rparr>
            | _ \<Rightarrow> Inl TypeError))"

definition resp_ok :: "http_response \<Rightarrow> bool" where
  "resp_ok r = (200 \<le> resp_status r \<and> resp_status r \<le> 299)"

text \<open>One pass through the body of \<^verbatim>\<open>summarizeWithHuggingFace\<close> after the response has
  been read (lines 250-338): \<open>Inr None\<close> asks for the retry after 15 seconds,
  \<open>Inr (Some r)\<close> returns \<open>r\<close>, \<open>Inl\<close> is an exception for the outer \<^verbatim>\<open>catch\<close>.\<close>

definition hf_once :: "http_response \<Rightarrow> error + summary_result option" where
  "hf_once resp =
     (if \<not> resp_ok resp then
        (if resp_status resp = 503 then Inr None
         else Inr (Some \<lparr>r_summary = ''HuggingFace API error ('' @ string_of_nat (resp_status resp)
                              @ ''): '' @ resp_status_text resp,
                          r_keyPoints = []\<rparr>))
      else if (case resp_content_type resp of
                 None \<Rightarrow> True
               | Some ct \<Rightarrow> \<not> js_includes ct ''application/json'') then
        (if starts_with (trim (resp_text resp)) ''<!DOCTYPE''
            \<or> starts_with (trim (resp_text resp)) ''<!doctype''
         then Inr (Some \<lparr>r_summary = ''HuggingFace API returned an error page. Please check your API key and model availability.'',
                          r_keyPoints = []\<rparr>)
         else Inr (Some \<lparr>r_summary = ''HuggingFace API returned unexpected response format.'',
                          r_keyPoints = []\<rparr>))
      else (case resp_json resp of
              None \<Rightarrow> Inr (Some \<lparr>r_summary = ''Failed to parse HuggingFace API response.'',
                                  r_keyPoints = []\<rparr>)
            | Some data \<Rightarrow>
                (case includes_loading (get_prop (Some data) ''error'') of
                   Inl err \<Rightarrow> Inl err
                 | Inr True \<Rightarrow> Inr None
                 | Inr False \<Rightarrow>
                     if js_truthy (get_prop (Some data) ''error'')
                     then Inr (Some \<lparr>r_summary = ''Hugging Face API error: ''
                                          @ js_to_string (pick (get_prop (Some data) ''error'')),
                                      r_keyPoints = []\<rparr>)
                     else (case summary_of data of
                             Inl err \<Rightarrow> Inl err
                           | Inr r \<Rightarrow> Inr (Some r)))))"

text \<open>The whole function: the request carries the first 4000 code units of the transcript;
  a failed request and every exception of the pass give the empty result of the outer
  \<^verbatim>\<open>catch\<close>; the retry is the recursive call of the source, with no bound.\<close>

partial_function (option) summarizeWithHuggingFace ::
  "(nat \<Rightarrow> string \<Rightarrow> error + http_response) \<Rightarrow> string \<Rightarrow> call list
     \<Rightarrow> ((error + summary_result) \<times> call list) option" where
  "summarizeWithHuggingFace post transcript w =
     (let w1 = w @ [CallSummarize (take 4000 transcript)] in
      case post (length w) (take 4000 transcript) of
        Inl err \<Rightarrow> Some (Inr \<lparr>r_summary = [], r_keyPoints = []\<rparr>, w1)
      | Inr resp \<Rightarrow>
          (case hf_once resp of
             Inl err \<Rightarrow> Some (Inr \<lparr>r_summary = [], r_keyPoints = []\<rparr>, w1)
           | Inr None \<Rightarrow> summarizeWithHuggingFace post transcript w1
           | Inr (Some r) \<Rightarrow> Some (Inr r, w1)))"

subsection \<open>Persistence: saveMeetingSummary\<close>

text \<open>Lines 656-691: the organisation of the row. The inner \<^verbatim>\<open>try\<close> around the room
  query swallows its exception.\<close>

definition save_org ::
  "env \<Rightarrow> auth_ctx \<Rightarrow> string \<Rightarrow> call list \<Rightarrow> string \<times> call list" where
  "save_org e ctx roomId w1 =
     (let fallbackOrg = (case env_default_org e of None \<Rightarrow> ''org_default'' | Some d \<Rightarrow> d) in
      if truthy_str (auth_orgId ctx)
      then ((case auth_orgId ctx of None \<Rightarrow> fallbackOrg | Some org \<Rightarrow> org), w1)
      else (case env_room e (length w1) roomId of
              Inl err \<Rightarrow> (fallbackOrg, w1 @ [CallRoom roomId])
            | Inr rr \<Rightarrow>
                (case room_org_id rr of
                   None \<Rightarrow> (fallbackOrg, w1 @ [CallRoom roomId])
                 | Some org \<Rightarrow>
                     (if org = [] then fallbackOrg else org, w1 @ [CallRoom roomId]))))"

text \<open>Lines 696-709; \<^verbatim>\<open>x || ''\<close>, \<^verbatim>\<open>x || []\<close> and \<^verbatim>\<open>x || 0\<close> leave a string, an array and
  a number as they are.\<close>

definition insert_data :: "MeetingSummary \<Rightarrow> string \<Rightarrow> string \<Rightarrow> string \<Rightarrow> insert_row" where
  "insert_data s roomId orgId createdBy =
     \<lparr>room_id = roomId, org_id = orgId, created_by = createdBy,
      summary_text = summary s, key_points = keyPoints s,
      row_participants = participants s,
      participant_names = participantNames s,
      duration_ms = duration s, start_time = startTime s,
      end_time = endTime s, row_transcriptions = transcriptions s\<rparr>"

text \<open>The \<^verbatim>\<open>try\<close> block: a rejected \<^verbatim>\<open>auth()\<close>, an insert that throws, reports an error
  or gives no data, and a verification query that throws all raise.\<close>

definition save_try ::
  "env \<Rightarrow> MeetingSummary \<Rightarrow> string \<Rightarrow> call list \<Rightarrow> (error + saved_row list) \<times> call list" where
  "save_try e s roomId w =
     (case env_auth e (length w) of
        Inl err \<Rightarrow> (Inl err, w @ [CallAuth])
      | Inr ctx \<Rightarrow>
          (case save_org e ctx roomId (w @ [CallAuth]) of
             (orgId, w2) \<Rightarrow>
               (let createdBy =
                      (case auth_userId ctx of
                         Some u \<Rightarrow> u
                       | None \<Rightarrow> (case env_system_user e of Some u \<Rightarrow> u | None \<Rightarrow> ''system''));
                    insertData = insert_data s roomId orgId createdBy;
                    w3 = w2 @ [CallInsert insertData]
                in case env_insert e (length w2) insertData of
                     Inl err \<Rightarrow> (Inl err, w3)
                   | Inr reply \<Rightarrow>
                       (case ins_error reply of
                          Some ierr \<Rightarrow> (Inl (Thrown ierr), w3)
                        | None \<Rightarrow>
                            (case ins_data reply of
                               None \<Rightarrow> (Inl (Thrown ''Insert returned no data''), w3)
                             | Some [] \<Rightarrow> (Inl (Thrown ''Insert returned no data''), w3)
                             | Some (d # ds) \<Rightarrow>
                                 (case env_verify e (length w3) (row_id d) of
                                    Some err \<Rightarrow> (Inl err, w3 @ [CallVerify (row_id d)])
                                  | None \<Rightarrow> (Inr (d # ds), w3 @ [CallVerify (row_id d)])))))))"

text \<open>The \<^verbatim>\<open>catch\<close> returns \<^verbatim>\<open>null\<close> (\<open>Inr None\<close>).\<close>

definition saveMeetingSummary ::
  "env \<Rightarrow> MeetingSummary \<Rightarrow> string \<Rightarrow> call list
     \<Rightarrow> (error + saved_row list option) \<times> call list" where
  "saveMeetingSummary e s roomId w =
     (case save_try e s roomId w of
        (Inl err, w') \<Rightarrow> (Inr None, w')
      | (Inr rows, w') \<Rightarrow> (Inr (Some rows), w'))"

subsection \<open>Finalising one participant: stopRecorder\<close>

text \<open>The \<^verbatim>\<open>try\<close> block (lines 400-421) for a record \<open>p\<close> with fragments, entered after
  \<^verbatim>\<open>isFinished\<close> has been set; the \<^verbatim>\<open>catch\<close> answers an entry with empty text.\<close>

definition finish_recorder ::
  "env \<Rightarrow> string \<Rightarrow> participantDataType \<Rightarrow> state \<Rightarrow> call list
     \<Rightarrow> ((error + transcript_entry option) \<times> state \<times> call list) option" where
  "finish_recorder e ident p st1 w =
     (let combined = concat (p_chunks p);
          shown = Text (case p_name p of None \<Rightarrow> ident | Some n \<Rightarrow> n)
      in if length combined = 0
         then Some (Inr (Some \<lparr>t_id = ident, t_name = Some shown, t_text = []\<rparr>), st1, w)
         else (case transcribeWithAssemblyAI e combined w of
                 None \<Rightarrow> None
               | Some (Inl err, w') \<Rightarrow>
                   Some (Inr (Some \<lparr>t_id = ident, t_name = Some shown, t_text = []\<rparr>), st1, w')
               | Some (Inr said, w') \<Rightarrow>
                   Some (Inr (Some \<lparr>t_id = ident, t_name = Some shown, t_text = said\<rparr>), st1, w')))"

text \<open>\<open>Inr None\<close> is the \<^verbatim>\<open>null\<close> of the guard in line 395. The guard is outside the
  \<^verbatim>\<open>try\<close>: when line 394 reads a truthy value that is no record, \<^verbatim>\<open>p.chunks\<close> is
  \<^verbatim>\<open>undefined\<close> and \<^verbatim>\<open>p.chunks.length\<close> throws a \<^verbatim>\<open>TypeError\<close> to the caller.\<close>

definition stopRecorder ::
  "env \<Rightarrow> string \<Rightarrow> int \<Rightarrow> state \<Rightarrow> call list
     \<Rightarrow> ((error + transcript_entry option) \<times> state \<times> call list) option" where
  "stopRecorder e ident stopTime st w =
     (case lookup_participant st ident of
        Missing \<Rightarrow> Some (Inr None, st, w)
      | Foreign b \<Rightarrow> if b then Some (Inl TypeError, st, w) else Some (Inr None, st, w)
      | OwnRecord p \<Rightarrow>
          if length (p_chunks p) = 0 then Some (Inr None, st, w)
          else finish_recorder e ident p
                 (st\<lparr>participantData :=
                       AList.update ident (p\<lparr>p_isFinished := True\<rparr>) (participantData st)\<rparr>) w
      | ProtoRecord r \<Rightarrow>
          if length (p_chunks r) = 0 then Some (Inr None, st, w)
          else finish_recorder e ident r
                 (st\<lparr>participantDataProto := Some (r\<lparr>p_isFinished := True\<rparr>)\<rparr>) w)"

text \<open>The record that a read of the store finds, if it finds one.\<close>

definition record_of :: "found \<Rightarrow> participantDataType option" where
  "record_of f = (case f of OwnRecord p \<Rightarrow> Some p | ProtoRecord p \<Rightarrow> Some p | _ \<Rightarrow> None)"

subsection \<open>Ending the session: stopMeeting\<close>

fun list_min :: "int list \<Rightarrow> int" where
  "list_min [] = 0"
| "list_min [x] = x"
| "list_min (x # y # ys) = min x (list_min (y # ys))"

text \<open>Lines 431-445: the clock is derived only when it is falsy, from the earliest offset
  or, with no participant, from the wall clock. \<open>list_min\<close> is applied to a non-empty
  list only. Line 437 spreads the offsets into one call of \<^verbatim>\<open>Math.min\<close>, which throws when
  they are more than the engine accepts. The derived clock is stored before lines 439
  and 443 render it, where \<^verbatim>\<open>toISOString\<close> throws outside the range of \<^verbatim>\<open>Date\<close>.\<close>

definition derive_clock ::
  "env \<Rightarrow> state \<Rightarrow> call list \<Rightarrow> (error + int) \<times> state \<times> call list" where
  "derive_clock e st w =
     (let ps = object_values (participantData st) in
      if length ps > 0
      then (if length ps \<le> env_max_arguments e
            then (let t = list_min (map p_offset ps)
                  in (if date_ok t then Inr t else Inl RangeError,
                      st\<lparr>meetingStartTime := Some t\<rparr>, w))
            else (Inl RangeError, st, w))
      else (let t = env_now e (length w)
            in (if date_ok t then Inr t else Inl RangeError, st\<lparr>meetingStartTime := Some t\<rparr>,
                w @ [CallNow])))"

definition ensure_clock ::
  "env \<Rightarrow> state \<Rightarrow> call list \<Rightarrow> (error + int) \<times> state \<times> call list" where
  "ensure_clock e st w =
     (case meetingStartTime st of
        None \<Rightarrow> derive_clock e st w
      | Some c \<Rightarrow> if c = 0 then derive_clock e st w else (Inr c, st, w))"

text \<open>Lines 464-488. In the first branch the resolver is awaited outside any \<^verbatim>\<open>try\<close>; in the
  second the room query and the resolver are inside one.\<close>

definition resolve_member_names ::
  "env \<Rightarrow> string \<Rightarrow> string option \<Rightarrow> call list
     \<Rightarrow> ((error + (string \<Rightarrow> string option)) \<times> call list) option" where
  "resolve_member_names e roomId orgId w =
     (if truthy_str orgId then getOrganizationMemberNames e orgId w
      else (case env_room e (length w) roomId of
              Inl err \<Rightarrow> Some (Inr Map.empty, w @ [CallRoom roomId])
            | Inr rr \<Rightarrow>
                if truthy_str (room_org_id rr)
                then (case getOrganizationMemberNames e (room_org_id rr) (w @ [CallRoom roomId]) of
                        None \<Rightarrow> None
                      | Some (Inl err, w') \<Rightarrow> Some (Inr Map.empty, w')
                      | Some (Inr names, w') \<Rightarrow> Some (Inr names, w'))
                else Some (Inr Map.empty, w @ [CallRoom roomId])))"

text \<open>The read \<^verbatim>\<open>memberNames[k]\<close>: \<^verbatim>\<open>memberNames\<close> is a plain object, so a key with no own
  property finds the member of \<^verbatim>\<open>Object.prototype\<close> of that name, if there is one.\<close>

definition member_lookup :: "(string \<Rightarrow> string option) \<Rightarrow> string \<Rightarrow> js_name option" where
  "member_lookup memberNames k =
     (case memberNames k of
        Some n \<Rightarrow> Some (Text n)
      | None \<Rightarrow> if inherited_member k then Some (Inherited k) else None)"

text \<open>\<^verbatim>\<open>memberNames[p.id] || p.name || p.id\<close>.\<close>

definition resolved_name :: "(string \<Rightarrow> string option) \<Rightarrow> participantDataType \<Rightarrow> js_name" where
  "resolved_name memberNames p =
     (let stored = Text (case or_else (p_name p) (Some (p_id p)) of
                           None \<Rightarrow> p_id p | Some n \<Rightarrow> n)
      in case member_lookup memberNames (p_id p) of
           None \<Rightarrow> stored
         | Some (Text n) \<Rightarrow> if n \<noteq> [] then Text n else stored
         | Some (Inherited k) \<Rightarrow> Inherited k)"

text \<open>The body of the loop over the participants (lines 492-526).\<close>

definition transcribe_participant ::
  "env \<Rightarrow> (string \<Rightarrow> string option) \<Rightarrow> participantDataType \<Rightarrow> call list
     \<Rightarrow> (transcript_entry \<times> call list) option" where
  "transcribe_participant e memberNames p w =
     (let resolvedName = resolved_name memberNames p;
          silent = \<lparr>t_id = p_id p, t_name = Some resolvedName, t_text = []\<rparr>
      in if length (p_chunks p) = 0 then Some (silent, w)
         else (let combined = concat (p_chunks p) in
               if length combined = 0 then Some (silent, w)
               else (case transcribeWithAssemblyAI e combined w of
                       None \<Rightarrow> None
                     | Some (Inl err, w') \<Rightarrow> Some (silent, w')
                     | Some (Inr txt, w') \<Rightarrow>
                         Some (\<lparr>t_id = p_id p, t_name = Some resolvedName, t_text = txt\<rparr>, w'))))"

fun transcribe_participants ::
  "env \<Rightarrow> (string \<Rightarrow> string option) \<Rightarrow> participantDataType list \<Rightarrow> transcript_entry list
     \<Rightarrow> call list \<Rightarrow> (transcript_entry list \<times> call list) option" where
  "transcribe_participants e memberNames [] acc w = Some (acc, w)"
| "transcribe_participants e memberNames (p # ps) acc w =
     (case transcribe_participant e memberNames p w of
        None \<Rightarrow> None
      | Some (entry, w') \<Rightarrow> transcribe_participants e memberNames ps (acc @ [entry]) w')"

text \<open>Lines 529-532.\<close>

definition entry_line :: "transcript_entry \<Rightarrow> string" where
  "entry_line t =
     (case t_name t of None \<Rightarrow> t_id t | Some n \<Rightarrow> name_string n) @ '': '' @ t_text t"

definition fullTranscript :: "transcript_entry list \<Rightarrow> string" where
  "fullTranscript ts = trim (js_join [CHR 0x0A] (map entry_line ts))"

text \<open>Lines 535-538: the own properties of \<^verbatim>\<open>participantNames\<close>. The assignment to the key
  \<^verbatim>\<open>__proto__\<close> reaches the inherited setter and creates no property.\<close>

definition participant_names_of ::
  "(string \<Rightarrow> string option) \<Rightarrow> participantDataType list \<Rightarrow> (string \<times> js_name) list" where
  "participant_names_of memberNames ps =
     fold (\<lambda>p acc. if p_id p = ''__proto__'' then acc
                    else AList.update (p_id p) (resolved_name memberNames p) acc) ps []"

text \<open>Lines 583-588 and 594-599.\<close>

definition fallback_summary :: "string \<Rightarrow> string" where
  "fallback_summary ft =
     ''Meeting discussion: '' @ take 500 ft @ (if length ft > 500 then ''...'' else [])"

definition fallback_key_points :: "string \<Rightarrow> string list" where
  "fallback_key_points ft =
     take 5 (filter (\<lambda>t. length t > 10) (map trim (js_split sentence_end ft)))"

definition is_error_text :: "string \<Rightarrow> bool" where
  "is_error_text s = (js_includes s ''error'' \<or> js_includes s ''Error'' \<or> js_includes s ''API error'')"

text \<open>Lines 568-601: what becomes of the orchestrator's answer.\<close>

definition pick_summary :: "string \<Rightarrow> error + summary_result \<Rightarrow> string \<times> string list" where
  "pick_summary ft res =
     (case res of
        Inl err \<Rightarrow> (fallback_summary ft, fallback_key_points ft)
      | Inr r \<Rightarrow>
          if r_summary r \<noteq> [] \<and> \<not> is_error_text (r_summary r) \<and> length (r_keyPoints r) > 0
          then (r_summary r, r_keyPoints r)
          else (fallback_summary ft, fallback_key_points ft))"

text \<open>Lines 547-556 and 603-612.\<close>

definition assemble ::
  "string \<Rightarrow> string list \<Rightarrow> participantDataType list \<Rightarrow> (string \<Rightarrow> string option)
     \<Rightarrow> transcript_entry list \<Rightarrow> int \<Rightarrow> int \<Rightarrow> MeetingSummary" where
  "assemble s kps ps memberNames ts clock finish =
     \<lparr>summary = s,
      keyPoints = kps,
      participants = map p_id ps,
      participantNames = participant_names_of memberNames ps,
      transcriptions = ts,
      duration = finish - clock,
      startTime = ISO clock,
      endTime = ISO finish\<rparr>"

text \<open>Saving and returning. On the placeholder path (lines 558-560) the save is awaited
  bare, on the other (lines 617-637) inside a \<^verbatim>\<open>try\<close> whose \<^verbatim>\<open>catch\<close> only logs.\<close>

definition save_and_return ::
  "env \<Rightarrow> string \<Rightarrow> state \<Rightarrow> MeetingSummary \<Rightarrow> bool \<Rightarrow> call list
     \<Rightarrow> (error + MeetingSummary) \<times> state \<times> call list" where
  "save_and_return e roomId st result guarded w =
     (case saveMeetingSummary e result roomId w of
        (Inl err, w') \<Rightarrow> if guarded then (Inr result, st, w') else (Inl err, st, w')
      | (Inr saved, w') \<Rightarrow> (Inr result, st, w'))"

text \<open>The whole action. Lines 447-456 read the wall clock and log the two instants of the
  session, outside any \<^verbatim>\<open>try\<close>: \<^verbatim>\<open>toISOString\<close> throws for an instant outside the range
  of \<^verbatim>\<open>Date\<close>. The \<^verbatim>\<open>auth()\<close> call of line 465 is outside any \<^verbatim>\<open>try\<close> as well.\<close>

definition stopMeeting ::
  "env \<Rightarrow> string \<Rightarrow> state \<Rightarrow> call list
     \<Rightarrow> ((error + MeetingSummary) \<times> state \<times> call list) option" where
  "stopMeeting e roomId st w =
     (case ensure_clock e st w of
        (Inl err, st1, w1) \<Rightarrow> Some (Inl err, st1, w1)
      | (Inr clock, st1, w1) \<Rightarrow>
          (let ps = object_values (participantData st1);
               finish = env_now e (length w1);
               w3 = w1 @ [CallNow, CallAuth]
           in if date_ok clock \<and> date_ok finish
              then
                (case env_auth e (Suc (length w1)) of
                   Inl err \<Rightarrow> Some (Inl err, st1, w3)
                 | Inr ctx \<Rightarrow>
                     (case resolve_member_names e roomId (auth_orgId ctx) w3 of
                        None \<Rightarrow> None
                      | Some (Inl err, w4) \<Rightarrow> Some (Inl err, st1, w4)
                      | Some (Inr memberNames, w4) \<Rightarrow>
                          (case transcribe_participants e memberNames ps [] w4 of
                             None \<Rightarrow> None
                           | Some (ts, w5) \<Rightarrow>
                               if length (fullTranscript ts) = 0
                               then Some (save_and_return e roomId st1
                                      (assemble ''No speech detected during this meeting.''
                                         [''No audio captured'',
                                          ''Meeting contained silence or technical issues'']
                                         ps memberNames ts clock finish) False w5)
                               else
                                 (case summarizeWithHuggingFace (env_summarize e)
                                         (fullTranscript ts) w5 of
                                    None \<Rightarrow> None
                                  | Some (res, w6) \<Rightarrow>
                                      Some (save_and_return e roomId st1
                                        (assemble (fst (pick_summary (fullTranscript ts) res))
                                           (snd (pick_summary (fullTranscript ts) res))
                                           ps memberNames ts clock finish) True w6)))))
              else Some (Inl RangeError, st1, w1 @ [CallNow])))"

subsection \<open>Sequences of chunk store actions\<close>





text \<open>The shape of a store that the actions build: every key holds the record of that
  identifier, once, and \<^verbatim>\<open>__proto__\<close> is no key.\<close>

definition store_ok :: "state \<Rightarrow> bool" where
  "store_ok st =
     (distinct (map fst (participantData st))
      \<and> list_all (\<lambda>kv. p_id (snd kv) = fst kv) (participantData st)
      \<and> ''__proto__'' \<notin> set (map fst (participantData st)))"

subsection \<open>The combined transcript and the key points as the specification words them\<close>

text \<open>Section 4.1 (e): join all non-empty entries as name-colon-text lines, trimmed.\<close>

definition spec_combined_transcript :: "transcript_entry list \<Rightarrow> string" where
  "spec_combined_transcript ts =
     trim (js_join [CHR 0x0A] (map entry_line (filter (\<lambda>t. t_text t \<noteq> []) ts)))"

text \<open>Section 4.3 (7): split on the three marks, trim, discard fragments shorter than 5
  characters, keep at most 5.\<close>

definition spec_key_points :: "string \<Rightarrow> string list" where
  "spec_key_points txt =
     take 5 (filter (\<lambda>f. \<not> length f < 5)
               (map trim (js_split (\<lambda>c. c \<in> {CHR ''.'', CHR ''?'', CHR ''!''}) txt)))"



subsection \<open>Behaviours of the collaborators\<close>

text \<open>The transcription service never reports a job as \<^verbatim>\<open>completed\<close>.\<close>

definition never_completed :: "env \<Rightarrow> bool" where
  "never_completed e =
     (\<forall>t jid. case env_poll e t jid of Inl err \<Rightarrow> True | Inr r \<Rightarrow> poll_status r \<noteq> ''completed'')"

text \<open>From every moment on, some poll of every job reports a terminal status or throws.\<close>

definition polls_settle :: "env \<Rightarrow> bool" where
  "polls_settle e =
     (\<forall>t jid. \<exists>n. case env_poll e (t + n) jid of
                      Inl err \<Rightarrow> True
                    | Inr r \<Rightarrow> poll_status r = ''completed'' \<or> poll_status r = ''error'')"



subsection \<open>Reading a trace\<close>

text \<open>The request bodies sent to the summarisation service, in order.\<close>

fun summarize_bodies :: "call list \<Rightarrow> string list" where
  "summarize_bodies [] = []"
| "summarize_bodies (CallSummarize b # cs) = b # summarize_bodies cs"
| "summarize_bodies (c # cs) = summarize_bodies cs"

subsection \<open>Sample collaborators and stores\<close>

definition ok_response :: "string \<Rightarrow> http_response" where
  "ok_response s =
     \<lparr>resp_status = 200, resp_status_text = ''OK'',
      resp_content_type = Some ''application/json'',
      resp_text = [],
      resp_json = Some (JArr [JObj [(''summary_text'', JStr s)]])\<rparr>"

definition busy_response :: http_response where
  "busy_response =
     \<lparr>resp_status = 503, resp_status_text = ''Service Unavailable'',
      resp_content_type = Some ''application/json'',
      resp_text = [],
      resp_json = None\<rparr>"

text \<open>No organisation, a transcription service that reports \<^verbatim>\<open>error\<close> at the first poll, a
  summarisation service that answers at once, and a database that stores the row.\<close>

definition base_env :: env where
  "base_env =
     \<lparr>env_now = (\<lambda>t. 1000 + int t),
      env_max_arguments = 100000,
      env_auth = (\<lambda>t. Inr \<lparr>auth_orgId = None, auth_userId = None\<rparr>),
      env_room = (\<lambda>t r. Inr \<lparr>room_org_id = None, room_error = None\<rparr>),
      env_clerk_secret = None,
      env_members = (\<lambda>t org off. Inr None),
      env_write_temp = (\<lambda>t b. None),
      env_upload = (\<lambda>t b. Inr (Some ''u'')),
      env_submit = (\<lambda>t u. Inr \<lparr>job_status = ''queued'', job_id = ''j''\<rparr>),
      env_poll = (\<lambda>t j. Inr \<lparr>poll_status = ''error'', poll_text = None\<rparr>),
      env_summarize = (\<lambda>t b. Inr (ok_response ''We shipped the feature.'')),
      env_default_org = None,
      env_system_user = None,
      env_insert = (\<lambda>t r. Inr \<lparr>ins_data = Some [\<lparr>row_id = ''r'', row_created_at = ''now''\<rparr>],
                               ins_error = None\<rparr>),
      env_verify = (\<lambda>t i. None)\<rparr>"

definition alice :: participantDataType where
  "alice = \<lparr>p_id = ''alice'', p_name = Some ''Alice'', p_offset = 10, p_chunks = [],
            p_isFinished = False\<rparr>"

definition alice_registered :: state where
  "alice_registered = snd (setNewParticipantServerAction alice initial_state)"

definition bob_recorded :: state where
  "bob_recorded = snd (setParticipantBlobChunk ''bob'' [1, 2] 7 alice_registered)"

text \<open>As \<open>base_env\<close>, with a transcription service that completes every job with the
  text \<open>hello\<close>.\<close>

definition talk_env :: env where
  "talk_env = base_env\<lparr>env_poll := (\<lambda>t j. Inr \<lparr>poll_status = ''completed'', poll_text = Some ''hello''\<rparr>)\<rparr>"

text \<open>As \<open>base_env\<close>, with a summarisation service whose summary is the word \<open>Fine\<close>.\<close>

definition fine_env :: env where
  "fine_env = base_env\<lparr>env_summarize := (\<lambda>t b. Inr (ok_response ''Fine''))\<rparr>"

text \<open>As \<open>base_env\<close>, with a file system that cannot write the temporary file.\<close>

definition full_disk_env :: env where
  "full_disk_env = base_env\<lparr>env_write_temp := (\<lambda>t b. Some (Thrown ''ENOSPC''))\<rparr>"


section \<open>Properties\<close>

lemmas pure_simps =
  is_space_def trim_def sentence_end_def starts_with_def digit_char_def
  truthy_str_def or_else_def is_digit_def nat_of_digits_def is_array_index_def
  object_entries_def object_values_def clock_set_def initial_state_def
  date_ok_def object_prototype_names_def inherited_member_def name_string_def
  proto_field_def lookup_participant_def assign_participant_def
  Init_def setNewParticipantServerAction_def setParticipantBlobChunk_def
  trimmed_def member_name_def name_map_def
  getOrganizationMemberNames_def transcribe_try_def
  transcribeWithAssemblyAI_def key_points_def pick_def extract_text_def summary_of_def
  resp_ok_def hf_once_def save_org_def insert_data_def
  save_try_def saveMeetingSummary_def finish_recorder_def stopRecorder_def derive_clock_def
  ensure_clock_def resolve_member_names_def member_lookup_def resolved_name_def transcribe_participant_def entry_line_def
  fullTranscript_def participant_names_of_def fallback_summary_def
  fallback_key_points_def is_error_text_def pick_summary_def assemble_def
  save_and_return_def stopMeeting_def Let_def

lemmas model_simps =
  pure_simps fetch_memberships.simps poll_loop.simps summarizeWithHuggingFace.simps

lemmas sample_simps =
  ok_response_def busy_response_def base_env_def alice_def alice_registered_def bob_recorded_def

subsection \<open>The session clock\<close>

lemma assign_participant_clock [simp]:
  "meetingStartTime (assign_participant k r st) = meetingStartTime st"
  by (simp add: assign_participant_def)

lemma ingest_keeps_set_clock:
  "clock_set (meetingStartTime st)
     \<Longrightarrow> meetingStartTime (snd (setParticipantBlobChunk ident blob timestamp st)) = meetingStartTime st"
  by (simp add: setParticipantBlobChunk_def Let_def split: found.splits)

text \<open>A start time or a first chunk stamped outside the range of \<^verbatim>\<open>Date\<close>: the clock is
  set, and the action throws where it logs the clock.\<close>

lemma clock_outside_date_range:
  "fst (Init 8640000000000001 initial_state) = Inl RangeError
   \<and> meetingStartTime (snd (Init 8640000000000001 initial_state)) = Some 8640000000000001
   \<and> fst (setParticipantBlobChunk ''alice'' [1] 8640000000000001 initial_state) = Inl RangeError
   \<and> meetingStartTime (snd (setParticipantBlobChunk ''alice'' [1] 8640000000000001 initial_state))
        = Some 8640000000000001
   \<and> participantData (snd (setParticipantBlobChunk ''alice'' [1] 8640000000000001 initial_state))
        = []"
  by (simp add: pure_simps)

lemma ensure_clock_keeps_set_clock:
  "clock_set (meetingStartTime st) \<Longrightarrow> ensure_clock e st w = (c, st', w')
     \<Longrightarrow> meetingStartTime st' = meetingStartTime st"
  by (auto simp: ensure_clock_def clock_set_def split: option.splits if_splits)

lemma stopMeeting_state:
  assumes "stopMeeting e room st w = Some (r, st', w')"
  shows "\<exists>c w1. ensure_clock e st w = (c, st', w1)"
proof -
  obtain c st1 w1 where ec: "ensure_clock e st w = (c, st1, w1)"
    by (cases "ensure_clock e st w") auto
  have "st' = st1"
    using assms ec
    by (auto simp: stopMeeting_def Let_def save_and_return_def
             split: sum.splits option.splits prod.splits if_splits)
  with ec show ?thesis by blast
qed

lemma stopMeeting_keeps_set_clock:
  "clock_set (meetingStartTime st) \<Longrightarrow> stopMeeting e room st w = Some (r, st', w')
     \<Longrightarrow> meetingStartTime st' = meetingStartTime st"
  using stopMeeting_state ensure_clock_keeps_set_clock by blast

text \<open>
  C4. The claim: once the session clock is established, no later \<^verbatim>\<open>ingestChunk\<close> or
  \<^verbatim>\<open>endSession\<close> overwrites it before the next init, for every init start time, 0
  included. The guard of lines 367 and 432 tests the clock for truthiness, so a clock
  established as 0 counts as unset: after \<^verbatim>\<open>Init(0)\<close> the first chunk, stamped 5, replaces
  the clock by 5. (A clock other than 0 is kept: \<open>ingest_keeps_set_clock\<close>,
  \<open>stopMeeting_keeps_set_clock\<close>.)
\<close>

theorem init_zero_clock_overwritten:
  "meetingStartTime (snd (Init 0 initial_state)) = Some 0
   \<and> meetingStartTime
        (snd (setParticipantBlobChunk ''alice'' [1] 5 (snd (Init 0 initial_state)))) = Some 5"
  by (simp add: pure_simps)

subsection \<open>Finalising one participant\<close>

text \<open>
  C1, as the code has it. \<^verbatim>\<open>stopRecorder\<close> answers \<^verbatim>\<open>null\<close>, with no collaborator call, when
  the read of the store finds nothing, or a record with no fragment; with fragments whose
  combined size is 0 it answers an entry with empty text, again with no call; a
  transcription that throws gives an entry with empty text, and a transcription that
  returns gives an entry with its text. It never throws, unless the read finds a truthy
  value that is no record, which makes line 395 throw a \<^verbatim>\<open>TypeError\<close>: that cannot happen
  for an identifier with a record of its own; and for an identifier with none that names
  no member of \<^verbatim>\<open>Object.prototype\<close> and no field of a prototype record, the read finds
  nothing.
\<close>

theorem stopRecorder_null_or_entry:
  "((lookup_participant st ident = Missing \<or> lookup_participant st ident = Foreign False
      \<or> (\<exists>p. record_of (lookup_participant st ident) = Some p \<and> length (p_chunks p) = 0))
     \<longrightarrow> stopRecorder e ident stopTime st w = Some (Inr None, st, w))
   \<and> (\<forall>p. record_of (lookup_participant st ident) = Some p \<and> p_chunks p \<noteq> []
            \<and> concat (p_chunks p) = []
        \<longrightarrow> (\<exists>st1. stopRecorder e ident stopTime st w =
               Some (Inr (Some \<lparr>t_id = ident,
                                 t_name = Some (Text (case p_name p of None \<Rightarrow> ident | Some n \<Rightarrow> n)),
                                 t_text = []\<rparr>), st1, w)))
   \<and> (lookup_participant st ident \<noteq> Foreign True
        \<longrightarrow> (\<forall>err st' w'. stopRecorder e ident stopTime st w \<noteq> Some (Inl err, st', w')))
   \<and> (lookup_participant st ident = Foreign True
        \<longrightarrow> stopRecorder e ident stopTime st w = Some (Inl TypeError, st, w))
   \<and> (map_of (participantData st) ident \<noteq> None
        \<longrightarrow> lookup_participant st ident \<noteq> Foreign True)
   \<and> (map_of (participantData st) ident = None \<and> \<not> inherited_member ident
          \<and> (\<forall>r. participantDataProto st = Some r \<longrightarrow> proto_field r ident = None)
        \<longrightarrow> lookup_participant st ident = Missing)
   \<and> (\<forall>p err w1. record_of (lookup_participant st ident) = Some p \<and> concat (p_chunks p) \<noteq> []
            \<and> transcribeWithAssemblyAI e (concat (p_chunks p)) w = Some (Inl err, w1)
        \<longrightarrow> (\<exists>st1. stopRecorder e ident stopTime st w =
               Some (Inr (Some \<lparr>t_id = ident,
                                 t_name = Some (Text (case p_name p of None \<Rightarrow> ident | Some n \<Rightarrow> n)),
                                 t_text = []\<rparr>), st1, w1)))
   \<and> (\<forall>p said w1. record_of (lookup_participant st ident) = Some p \<and> concat (p_chunks p) \<noteq> []
            \<and> transcribeWithAssemblyAI e (concat (p_chunks p)) w = Some (Inr said, w1)
        \<longrightarrow> (\<exists>st1. stopRecorder e ident stopTime st w =
               Some (Inr (Some \<lparr>t_id = ident,
                                 t_name = Some (Text (case p_name p of None \<Rightarrow> ident | Some n \<Rightarrow> n)),
                                 t_text = said\<rparr>), st1, w1)))"
proof -
  have null: "(lookup_participant st ident = Missing \<or> lookup_participant st ident = Foreign False
      \<or> (\<exists>p. record_of (lookup_participant st ident) = Some p \<and> length (p_chunks p) = 0))
     \<longrightarrow> stopRecorder e ident stopTime st w = Some (Inr None, st, w)"
    unfolding stopRecorder_def finish_recorder_def record_of_def Let_def
    by (cases "lookup_participant st ident") (auto split: option.splits sum.splits prod.splits)
  have silent: "\<forall>p. record_of (lookup_participant st ident) = Some p \<and> p_chunks p \<noteq> []
            \<and> concat (p_chunks p) = []
        \<longrightarrow> (\<exists>st1. stopRecorder e ident stopTime st w =
               Some (Inr (Some \<lparr>t_id = ident,
                                 t_name = Some (Text (case p_name p of None \<Rightarrow> ident | Some n \<Rightarrow> n)),
                                 t_text = []\<rparr>), st1, w))"
    unfolding stopRecorder_def finish_recorder_def record_of_def Let_def
    by (cases "lookup_participant st ident") (auto split: option.splits sum.splits prod.splits)
  have quiet: "lookup_participant st ident \<noteq> Foreign True
        \<longrightarrow> (\<forall>err st' w'. stopRecorder e ident stopTime st w \<noteq> Some (Inl err, st', w'))"
    unfolding stopRecorder_def finish_recorder_def record_of_def Let_def
    by (cases "lookup_participant st ident") (auto split: option.splits sum.splits prod.splits)
  have thrown: "lookup_participant st ident = Foreign True
        \<longrightarrow> stopRecorder e ident stopTime st w = Some (Inl TypeError, st, w)"
    unfolding stopRecorder_def finish_recorder_def record_of_def Let_def
    by (cases "lookup_participant st ident") (auto split: option.splits sum.splits prod.splits)
  have own: "map_of (participantData st) ident \<noteq> None
        \<longrightarrow> lookup_participant st ident \<noteq> Foreign True"
    by (auto simp: lookup_participant_def split: option.splits)
  have absent: "map_of (participantData st) ident = None \<and> \<not> inherited_member ident
          \<and> (\<forall>r. participantDataProto st = Some r \<longrightarrow> proto_field r ident = None)
        \<longrightarrow> lookup_participant st ident = Missing"
    by (auto simp: lookup_participant_def inherited_member_def object_prototype_names_def
             split: option.splits)
  have failed: "\<forall>p err w1. record_of (lookup_participant st ident) = Some p \<and> concat (p_chunks p) \<noteq> []
            \<and> transcribeWithAssemblyAI e (concat (p_chunks p)) w = Some (Inl err, w1)
        \<longrightarrow> (\<exists>st1. stopRecorder e ident stopTime st w =
               Some (Inr (Some \<lparr>t_id = ident,
                                 t_name = Some (Text (case p_name p of None \<Rightarrow> ident | Some n \<Rightarrow> n)),
                                 t_text = []\<rparr>), st1, w1))"
    unfolding stopRecorder_def finish_recorder_def record_of_def Let_def
    by (cases "lookup_participant st ident") (auto split: option.splits sum.splits prod.splits)
  have heard: "\<forall>p said w1. record_of (lookup_participant st ident) = Some p \<and> concat (p_chunks p) \<noteq> []
            \<and> transcribeWithAssemblyAI e (concat (p_chunks p)) w = Some (Inr said, w1)
        \<longrightarrow> (\<exists>st1. stopRecorder e ident stopTime st w =
               Some (Inr (Some \<lparr>t_id = ident,
                                 t_name = Some (Text (case p_name p of None \<Rightarrow> ident | Some n \<Rightarrow> n)),
                                 t_text = said\<rparr>), st1, w1))"
    unfolding stopRecorder_def finish_recorder_def record_of_def Let_def
    by (cases "lookup_participant st ident") (auto split: option.splits sum.splits prod.splits)
  show ?thesis
    by (intro conjI null silent quiet thrown own absent failed heard)
qed

theorem stopRecorder_null_or_entry_witness:
  "stopRecorder base_env ''alice'' 0 alice_registered [] = Some (Inr None, alice_registered, [])
   \<and> (\<exists>st1. stopRecorder (base_env\<lparr>env_write_temp := (\<lambda>t b. Some (Thrown ''ENOSPC''))\<rparr>)
               ''bob'' 0 bob_recorded [] =
             Some (Inr (Some \<lparr>t_id = ''bob'', t_name = Some (Text ''bob''), t_text = []\<rparr>), st1,
                   [CallWriteTemp [1, 2]]))"
  using stopRecorder_null_or_entry
          [of alice_registered "''alice''" base_env 0 "[]"]
        stopRecorder_null_or_entry
          [of bob_recorded "''bob''" "base_env\<lparr>env_write_temp := (\<lambda>t b. Some (Thrown ''ENOSPC''))\<rparr>"
              0 "[]"]
  by (simp add: model_simps sample_simps record_of_def)

text \<open>The claim as written fails: a registered participant with no fragment gets
  \<^verbatim>\<open>null\<close>, not an entry with empty text; and for the identifier \<^verbatim>\<open>constructor\<close>, which has
  no record, the read finds the function that every object inherits under that name,
  and \<^verbatim>\<open>stopRecorder\<close> throws.\<close>

theorem stopRecorder_no_fragments_counterexample:
  "\<not> (\<exists>entry st' w'. stopRecorder base_env ''alice'' 0 alice_registered [] =
                         Some (Inr (Some entry), st', w') \<and> t_text entry = [])
   \<and> stopRecorder base_env ''constructor'' 0 initial_state []
       = Some (Inl TypeError, initial_state, [])"
  by (simp add: model_simps sample_simps)

subsection \<open>Traces, exceptions and the shape of a run\<close>

lemma summarize_bodies_append [simp]:
  "summarize_bodies (xs @ ys) = summarize_bodies xs @ summarize_bodies ys"
  by (induction xs rule: summarize_bodies.induct) simp_all

lemma fetch_memberships_quiet:
  assumes "fetch_memberships members org page acc w = Some r"
  shows "summarize_bodies (snd r) = summarize_bodies w"
  by (rule fetch_memberships.raw_induct[OF _ assms])
     (auto simp: Let_def split: sum.splits option.splits if_splits)

lemma getOrganizationMemberNames_quiet:
  "getOrganizationMemberNames e orgId w = Some (r, w') \<Longrightarrow> summarize_bodies w' = summarize_bodies w"
  by (auto simp: getOrganizationMemberNames_def split: option.splits if_splits sum.splits prod.splits
           dest: fetch_memberships_quiet)

lemma getOrganizationMemberNames_no_throw:
  "getOrganizationMemberNames e orgId w \<noteq> Some (Inl err, w')"
  by (auto simp: getOrganizationMemberNames_def split: option.splits if_splits sum.splits prod.splits)

lemma resolve_member_names_quiet:
  "resolve_member_names e room orgId w = Some (r, w') \<Longrightarrow> summarize_bodies w' = summarize_bodies w"
  by (auto simp: resolve_member_names_def split: option.splits if_splits sum.splits prod.splits
           dest: getOrganizationMemberNames_quiet)

lemma resolve_member_names_no_throw:
  "resolve_member_names e room orgId w \<noteq> Some (Inl err, w')"
  using getOrganizationMemberNames_no_throw
  by (auto simp: resolve_member_names_def split: option.splits if_splits sum.splits prod.splits)

lemma poll_loop_quiet:
  assumes "poll_loop poll jid status result w = Some r"
  shows "summarize_bodies (snd r) = summarize_bodies w"
  by (rule poll_loop.raw_induct[OF _ assms])
     (auto split: sum.splits option.splits if_splits)

lemma transcribe_try_quiet:
  "transcribe_try e blob w = Some (r, w') \<Longrightarrow> summarize_bodies w' = summarize_bodies w"
  by (auto simp: transcribe_try_def Let_def split: option.splits if_splits sum.splits prod.splits
           dest: poll_loop_quiet)

lemma transcribeWithAssemblyAI_quiet:
  "transcribeWithAssemblyAI e blob w = Some (r, w') \<Longrightarrow> summarize_bodies w' = summarize_bodies w"
  by (auto simp: transcribeWithAssemblyAI_def split: option.splits if_splits sum.splits prod.splits
           dest: transcribe_try_quiet)

lemma transcribe_participant_quiet:
  "transcribe_participant e mn p w = Some (entry, w') \<Longrightarrow> summarize_bodies w' = summarize_bodies w"
  by (auto simp: transcribe_participant_def Let_def split: option.splits if_splits sum.splits prod.splits
           dest: transcribeWithAssemblyAI_quiet)

lemma transcribe_participants_quiet:
  "transcribe_participants e mn ps acc w = Some (ts, w') \<Longrightarrow> summarize_bodies w' = summarize_bodies w"
proof (induction ps arbitrary: acc w)
  case Nil
  then show ?case by simp
next
  case (Cons p ps)
  then show ?case
    by (auto split: option.splits prod.splits dest: transcribe_participant_quiet)
qed

lemma save_org_quiet:
  "save_org e ctx room w = (org, w') \<Longrightarrow> summarize_bodies w' = summarize_bodies w"
  by (auto simp: save_org_def Let_def split: option.splits if_splits sum.splits)

lemma save_try_quiet:
  "save_try e s room w = (r, w') \<Longrightarrow> summarize_bodies w' = summarize_bodies w"
  by (auto simp: save_try_def Let_def split: option.splits if_splits sum.splits prod.splits list.splits
           dest: save_org_quiet)

lemma saveMeetingSummary_quiet:
  "saveMeetingSummary e s room w = (r, w') \<Longrightarrow> summarize_bodies w' = summarize_bodies w"
  by (auto simp: saveMeetingSummary_def split: sum.splits prod.splits dest: save_try_quiet)

lemma saveMeetingSummary_no_throw:
  "saveMeetingSummary e s room w \<noteq> (Inl err, w')"
  by (auto simp: saveMeetingSummary_def split: sum.splits prod.splits)

lemma ensure_clock_quiet:
  "ensure_clock e st w = (c, st', w') \<Longrightarrow>
     summarize_bodies w' = summarize_bodies w \<and> participantData st' = participantData st"
  by (auto simp: ensure_clock_def derive_clock_def Let_def split: option.splits if_splits)

lemma summarize_no_throw:
  assumes "summarizeWithHuggingFace post tr w = Some r"
  shows "\<exists>res. fst r = Inr res"
  by (rule summarizeWithHuggingFace.raw_induct[OF _ assms])
     (auto simp: Let_def split: sum.splits option.splits)

lemma summarize_bodies_of_run:
  assumes "summarizeWithHuggingFace post tr w = Some r"
  shows "\<exists>n. summarize_bodies (snd r) = summarize_bodies w @ replicate (Suc n) (take 4000 tr)"
proof (rule summarizeWithHuggingFace.raw_induct[OF _ assms], goal_cases)
  case (1 f post tr w r)
  show ?case
  proof (cases "post (length w) (take 4000 tr)")
    case (Inl err)
    with 1(2) have "snd r = w @ [CallSummarize (take 4000 tr)]" by (auto simp: Let_def)
    then show ?thesis by (intro exI[of _ 0]) simp
  next
    case (Inr resp)
    show ?thesis
    proof (cases "hf_once resp")
      case (Inl err)
      with 1(2) Inr have "snd r = w @ [CallSummarize (take 4000 tr)]" by (auto simp: Let_def)
      then show ?thesis by (intro exI[of _ 0]) simp
    next
      case inner: (Inr v)
      show ?thesis
      proof (cases v)
        case None
        with 1(2) Inr inner have "f post tr (w @ [CallSummarize (take 4000 tr)]) = Some r"
          by (simp add: Let_def)
        from 1(1)[OF this] obtain n where
          "summarize_bodies (snd r) =
             summarize_bodies (w @ [CallSummarize (take 4000 tr)]) @ replicate (Suc n) (take 4000 tr)"
          by blast
        then have "summarize_bodies (snd r) = summarize_bodies w @ replicate (Suc (Suc n)) (take 4000 tr)"
          by simp
        then show ?thesis by blast
      next
        case (Some res)
        with 1(2) Inr inner have "snd r = w @ [CallSummarize (take 4000 tr)]" by (auto simp: Let_def)
        then show ?thesis by (intro exI[of _ 0]) simp
      qed
    qed
  qed
qed

lemma save_and_return_ok:
  "\<exists>w'. save_and_return e room st result g w = (Inr result, st, w')
        \<and> summarize_bodies w' = summarize_bodies w"
  using saveMeetingSummary_no_throw[of e result room w] saveMeetingSummary_quiet[of e result room w]
  by (cases "saveMeetingSummary e result room w") (auto simp: save_and_return_def split: sum.splits)

lemma transcribe_participant_entry:
  "transcribe_participant e mn p w = Some (entry, w') \<Longrightarrow>
     t_id entry = p_id p \<and> t_name entry = Some (resolved_name mn p)"
  unfolding transcribe_participant_def Let_def
  by (auto split: if_splits option.splits sum.splits prod.splits)

lemma transcribe_participants_ids:
  "transcribe_participants e mn ps acc w = Some (ts, w') \<Longrightarrow>
     map t_id ts = map t_id acc @ map p_id ps"
proof (induction ps arbitrary: acc w)
  case Nil
  then show ?case by simp
next
  case (Cons p ps)
  then show ?case
    by (auto split: option.splits prod.splits dest: transcribe_participant_entry)
qed

text \<open>What a returned aggregate tells about the run.\<close>

lemma stopMeeting_cases:
  assumes "stopMeeting e room st w = Some (Inr agg, st', w')"
  obtains clock w1 ctx mn w4 ts w5 s kps where
    "ensure_clock e st w = (Inr clock, st', w1)"
    "env_auth e (Suc (length w1)) = Inr ctx"
    "resolve_member_names e room (auth_orgId ctx) (w1 @ [CallNow, CallAuth]) = Some (Inr mn, w4)"
    "transcribe_participants e mn (object_values (participantData st')) [] w4 = Some (ts, w5)"
    "agg = assemble s kps (object_values (participantData st')) mn ts clock (env_now e (length w1))"
    "(fullTranscript ts = []
        \<and> s = ''No speech detected during this meeting.''
        \<and> kps = [''No audio captured'', ''Meeting contained silence or technical issues'']
        \<and> summarize_bodies w' = summarize_bodies w5)
     \<or> (fullTranscript ts \<noteq> []
        \<and> (\<exists>res w6. summarizeWithHuggingFace (env_summarize e) (fullTranscript ts) w5
                        = Some (Inr res, w6)
              \<and> (s, kps) = pick_summary (fullTranscript ts) (Inr res)
              \<and> summarize_bodies w' = summarize_bodies w6))"
proof -
  obtain c st1 w1 where ec0: "ensure_clock e st w = (c, st1, w1)"
    by (cases "ensure_clock e st w") auto
  from assms ec0 obtain clock where c: "c = Inr clock"
    by (cases c) (auto simp: stopMeeting_def)
  note ec = ec0[unfolded c]
  let ?ps = "object_values (participantData st1)"
  let ?fin = "env_now e (length w1)"
  from assms ec have dates: "date_ok clock" "date_ok ?fin"
    by (auto simp: stopMeeting_def Let_def split: if_splits)
  from assms ec dates obtain ctx where au: "env_auth e (Suc (length w1)) = Inr ctx"
    by (auto simp: stopMeeting_def Let_def split: sum.splits)
  from assms ec dates au obtain mn w4 where
    rn: "resolve_member_names e room (auth_orgId ctx) (w1 @ [CallNow, CallAuth]) = Some (Inr mn, w4)"
    by (auto simp: stopMeeting_def Let_def split: sum.splits option.splits prod.splits)
  from assms ec dates au rn obtain ts w5 where
    tp: "transcribe_participants e mn ?ps [] w4 = Some (ts, w5)"
    by (auto simp: stopMeeting_def Let_def split: sum.splits option.splits prod.splits)
  show thesis
  proof (cases "fullTranscript ts = []")
    case True
    let ?agg = "assemble ''No speech detected during this meeting.''
                  [''No audio captured'', ''Meeting contained silence or technical issues'']
                  ?ps mn ts clock ?fin"
    from assms ec dates au rn tp True
    have "save_and_return e room st1 ?agg False w5 = (Inr agg, st', w')"
      by (simp add: stopMeeting_def Let_def)
    with save_and_return_ok[of e room st1 ?agg False w5]
    have "agg = ?agg" "st' = st1" "summarize_bodies w' = summarize_bodies w5" by auto
    with ec au rn tp True show thesis
      by (intro that[of clock w1 ctx mn w4 ts w5
                        "''No speech detected during this meeting.''"
                        "[''No audio captured'', ''Meeting contained silence or technical issues'']"])
         auto
  next
    case False
    from assms ec dates au rn tp False obtain res0 w6 where
      sm: "summarizeWithHuggingFace (env_summarize e) (fullTranscript ts) w5 = Some (res0, w6)"
      by (auto simp: stopMeeting_def Let_def split: option.splits)
    from summarize_no_throw[OF sm] obtain res where r0: "res0 = Inr res" by auto
    let ?agg = "assemble (fst (pick_summary (fullTranscript ts) (Inr res)))
                  (snd (pick_summary (fullTranscript ts) (Inr res))) ?ps mn ts clock ?fin"
    from assms ec dates au rn tp False sm r0
    have "save_and_return e room st1 ?agg True w6 = (Inr agg, st', w')"
      by (simp add: stopMeeting_def Let_def)
    with save_and_return_ok[of e room st1 ?agg True w6]
    have "agg = ?agg" "st' = st1" "summarize_bodies w' = summarize_bodies w6" by auto
    with ec au rn tp False sm r0 show thesis
      by (intro that[of clock w1 ctx mn w4 ts w5
                        "fst (pick_summary (fullTranscript ts) (Inr res))"
                        "snd (pick_summary (fullTranscript ts) (Inr res))"])
         auto
  qed
qed

subsection \<open>The summarisation orchestrator\<close>

lemma key_points_spec: "key_points txt = spec_key_points txt"
proof -
  have "sentence_end = (\<lambda>c. c \<in> {CHR ''.'', CHR ''?'', CHR ''!''})"
    by (auto simp: sentence_end_def fun_eq_iff)
  moreover have "(\<lambda>t::string. length t > 4) = (\<lambda>f. \<not> length f < 5)"
    by (auto simp: fun_eq_iff)
  ultimately show ?thesis
    by (simp add: key_points_def spec_key_points_def)
qed

lemma hf_once_success:
  assumes "resp_ok resp" "resp_content_type resp = Some ct" "js_includes ct ''application/json''"
    "resp_json resp = Some data" "includes_loading (get_prop (Some data) ''error'') = Inr False"
    "\<not> js_truthy (get_prop (Some data) ''error'')" "extract_text data = JStr txt" "txt \<noteq> []"
  shows "hf_once resp = Inr (Some \<lparr>r_summary = txt, r_keyPoints = key_points txt\<rparr>)"
  using assms by (simp add: hf_once_def summary_of_def)

lemma hf_once_busy:
  "resp_status resp = 503 \<Longrightarrow> hf_once resp = Inr None"
  by (simp add: hf_once_def resp_ok_def)


text \<open>
  C8. When the service answers with a summary text, the key points are the text split at
  the marks \<open>.\<close>, \<open>?\<close> and \<open>!\<close>, each fragment trimmed, fragments shorter than 5
  characters dropped, at most the first 5 kept (\<open>spec_key_points\<close> words it as the
  specification does); the example of the specification evaluates as stated; and the
  request carries the first 4000 characters of the transcript, which is all of a
  transcript that is no longer. (An empty text counts as no summary, section 4.3 (6).)
\<close>

theorem key_points_follow_spec:
  assumes "post (length w) (take 4000 transcript) = Inr resp"
    and "resp_ok resp"
    and "resp_content_type resp = Some ct" and "js_includes ct ''application/json''"
    and "resp_json resp = Some data"
    and "includes_loading (get_prop (Some data) ''error'') = Inr False"
    and "\<not> js_truthy (get_prop (Some data) ''error'')"
    and "extract_text data = JStr txt" and "txt \<noteq> []"
  shows "summarizeWithHuggingFace post transcript w =
           Some (Inr \<lparr>r_summary = txt, r_keyPoints = spec_key_points txt\<rparr>,
                 w @ [CallSummarize (take 4000 transcript)])
         \<and> length (take 4000 transcript) \<le> 4000
         \<and> (length transcript \<le> 4000 \<longrightarrow> take 4000 transcript = transcript)
         \<and> spec_key_points ''Hello world. We shipped the feature.''
             = [''Hello world'', ''We shipped the feature'']"
proof -
  have "hf_once resp = Inr (Some \<lparr>r_summary = txt, r_keyPoints = spec_key_points txt\<rparr>)"
    using hf_once_success[OF assms(2-9)] by (simp add: key_points_spec)
  then have "summarizeWithHuggingFace post transcript w =
           Some (Inr \<lparr>r_summary = txt, r_keyPoints = spec_key_points txt\<rparr>,
                 w @ [CallSummarize (take 4000 transcript)])"
    using assms(1) by (subst summarizeWithHuggingFace.simps) (simp add: Let_def)
  moreover have "spec_key_points ''Hello world. We shipped the feature.''
             = [''Hello world'', ''We shipped the feature'']"
    by (simp add: spec_key_points_def trim_def is_space_def)
  ultimately show ?thesis by simp
qed

theorem key_points_follow_spec_witness:
  "summarizeWithHuggingFace (\<lambda>t b. Inr (ok_response ''Hello world. We shipped the feature.''))
     ''Alice: Hello world. We shipped the feature.'' [] =
     Some (Inr \<lparr>r_summary = ''Hello world. We shipped the feature.'',
                 r_keyPoints = [''Hello world'', ''We shipped the feature'']\<rparr>,
           [CallSummarize ''Alice: Hello world. We shipped the feature.''])"
  using key_points_follow_spec
    [of "\<lambda>t b. Inr (ok_response ''Hello world. We shipped the feature.'')" "[]"
        "''Alice: Hello world. We shipped the feature.''"
        "ok_response ''Hello world. We shipped the feature.''"
        "''application/json''"
        "JArr [JObj [(''summary_text'', JStr ''Hello world. We shipped the feature.'')]]"
        "''Hello world. We shipped the feature.''"]
  by (simp add: ok_response_def resp_ok_def starts_with_def extract_text_def pick_def)


text \<open>
  C7. A first answer with status 503 and a second with status 200, a JSON content type and
  a summary text: the orchestrator asks twice and returns the summary of the second
  answer, not an error result. (The wait of 15 seconds between the requests is time and
  has no counterpart in the model.)
\<close>

theorem retry_after_503:
  assumes "post (length w) (take 4000 transcript) = Inr r1" and "resp_status r1 = 503"
    and "post (Suc (length w)) (take 4000 transcript) = Inr r2" and "resp_status r2 = 200"
    and "resp_content_type r2 = Some ct" and "js_includes ct ''application/json''"
    and "resp_json r2 = Some data"
    and "get_prop (Some data) ''error'' = None"
    and "extract_text data = JStr txt" and "txt \<noteq> []"
  shows "summarizeWithHuggingFace post transcript w =
           Some (Inr \<lparr>r_summary = txt, r_keyPoints = key_points txt\<rparr>,
                 w @ [CallSummarize (take 4000 transcript), CallSummarize (take 4000 transcript)])"
proof -
  have ok: "resp_ok r2" using assms(4) by (simp add: resp_ok_def)
  have second: "hf_once r2 = Inr (Some \<lparr>r_summary = txt, r_keyPoints = key_points txt\<rparr>)"
    using hf_once_success[OF ok assms(5) assms(6) assms(7) _ _ assms(9) assms(10)] assms(8)
    by simp
  have first: "hf_once r1 = Inr None" using assms(2) by (rule hf_once_busy)
  have "summarizeWithHuggingFace post transcript w =
          summarizeWithHuggingFace post transcript (w @ [CallSummarize (take 4000 transcript)])"
    using assms(1) first by (subst summarizeWithHuggingFace.simps) (simp add: Let_def)
  also have "\<dots> = Some (Inr \<lparr>r_summary = txt, r_keyPoints = key_points txt\<rparr>,
                 w @ [CallSummarize (take 4000 transcript), CallSummarize (take 4000 transcript)])"
    using assms(3) second by (subst summarizeWithHuggingFace.simps) (simp add: Let_def)
  finally show ?thesis .
qed

theorem retry_after_503_witness:
  "summarizeWithHuggingFace
     (\<lambda>t b. if t = 0 then Inr busy_response else Inr (ok_response ''We shipped the feature.''))
     ''Alice: hello'' [] =
   Some (Inr \<lparr>r_summary = ''We shipped the feature.'', r_keyPoints = [''We shipped the feature'']\<rparr>,
         [CallSummarize ''Alice: hello'', CallSummarize ''Alice: hello''])"
  using retry_after_503
    [of "\<lambda>t b. if t = 0 then Inr busy_response else Inr (ok_response ''We shipped the feature.'')"
        "[]" "''Alice: hello''" busy_response "ok_response ''We shipped the feature.''"
        "''application/json''" "JArr [JObj [(''summary_text'', JStr ''We shipped the feature.'')]]"
        "''We shipped the feature.''"]
  by (simp add: ok_response_def busy_response_def starts_with_def extract_text_def pick_def
        key_points_def trim_def is_space_def sentence_end_def)

subsection \<open>The combined transcript and the summary of the aggregate\<close>

lemma in_set_dropWhile: "x \<in> set xs \<Longrightarrow> \<not> P x \<Longrightarrow> x \<in> set (dropWhile P xs)"
  by (induction xs) auto

lemma trim_nonempty: "c \<in> set s \<Longrightarrow> \<not> is_space c \<Longrightarrow> trim s \<noteq> []"
proof -
  assume a: "c \<in> set s" "\<not> is_space c"
  then have "c \<in> set (dropWhile is_space s)" by (rule in_set_dropWhile)
  then have "c \<in> set (rev (dropWhile is_space s))" by simp
  then have "c \<in> set (dropWhile is_space (rev (dropWhile is_space s)))"
    using a(2) by (rule in_set_dropWhile)
  then have "c \<in> set (trim s)" by (simp add: trim_def)
  then show ?thesis by auto
qed

lemma js_join_first: "set x \<subseteq> set (js_join sep (x # xs))"
  by (cases xs) auto

lemma colon_in_entry_line: "CHR '':'' \<in> set (entry_line t)"
  by (simp add: entry_line_def)




lemma fullTranscript_nonempty: "ts \<noteq> [] \<Longrightarrow> fullTranscript ts \<noteq> []"
proof -
  assume "ts \<noteq> []"
  then obtain t rest where ts: "ts = t # rest" by (cases ts) auto
  have "CHR '':'' \<in> set (js_join [CHR 0x0A] (map entry_line ts))"
    using js_join_first[of "entry_line t" "[CHR 0x0A]" "map entry_line rest"] colon_in_entry_line[of t]
    by (auto simp: ts)
  moreover have "\<not> is_space CHR '':''" by (simp add: is_space_def)
  ultimately show ?thesis unfolding fullTranscript_def by (rule trim_nonempty)
qed


lemma length_object_values: "length (object_values obj) = length obj"
  by (simp add: object_values_def object_entries_def sum_length_filter_compl)

lemma transcribe_participants_length:
  "transcribe_participants e mn ps [] w = Some (ts, w') \<Longrightarrow> length ts = length ps"
  using transcribe_participants_ids[of e mn ps "[]" w ts w'] by (auto dest: map_eq_imp_length_eq)

lemma transcriptions_assemble [simp]: "transcriptions (assemble s kps ps mn ts c f) = ts"
  by (simp add: assemble_def)

lemma summary_assemble [simp]: "summary (assemble s kps ps mn ts c f) = s"
  by (simp add: assemble_def)

lemma keyPoints_assemble [simp]: "keyPoints (assemble s kps ps mn ts c f) = kps"
  by (simp add: assemble_def)

lemma run_entries:
  assumes "stopMeeting e room st w = Some (Inr agg, st', w')"
  shows "length (transcriptions agg) = length (participantData st)"
proof -
  from assms obtain clock w1 ctx mn w4 ts w5 s kps where
    ec: "ensure_clock e st w = (Inr clock, st', w1)" and
    au: "env_auth e (Suc (length w1)) = Inr ctx" and
    rn: "resolve_member_names e room (auth_orgId ctx) (w1 @ [CallNow, CallAuth]) = Some (Inr mn, w4)" and
    tp: "transcribe_participants e mn (object_values (participantData st')) [] w4 = Some (ts, w5)" and
    agg: "agg = assemble s kps (object_values (participantData st')) mn ts clock (env_now e (length w1))" and
    alt: "(fullTranscript ts = []
              \<and> s = ''No speech detected during this meeting.''
              \<and> kps = [''No audio captured'', ''Meeting contained silence or technical issues'']
              \<and> summarize_bodies w' = summarize_bodies w5)
            \<or> (fullTranscript ts \<noteq> []
              \<and> (\<exists>res w6. summarizeWithHuggingFace (env_summarize e) (fullTranscript ts) w5 = Some (Inr res, w6)
                    \<and> (s, kps) = pick_summary (fullTranscript ts) (Inr res)
                    \<and> summarize_bodies w' = summarize_bodies w6))"
    by (rule stopMeeting_cases)
  have pd: "participantData st' = participantData st"
    using ensure_clock_quiet[OF ec] by auto
  show ?thesis
    using transcribe_participants_length[OF tp] by (simp add: length_object_values pd agg)
qed

lemma run_bodies:
  assumes "stopMeeting e room st w = Some (Inr agg, st', w')"
  shows "(fullTranscript (transcriptions agg) = []
            \<and> summary agg = ''No speech detected during this meeting.''
            \<and> keyPoints agg = [''No audio captured'', ''Meeting contained silence or technical issues'']
            \<and> summarize_bodies w' = summarize_bodies w)
       \<or> (fullTranscript (transcriptions agg) \<noteq> []
            \<and> (\<exists>res w5 w6 n.
                  summarizeWithHuggingFace (env_summarize e) (fullTranscript (transcriptions agg)) w5
                    = Some (Inr res, w6)
                \<and> (summary agg, keyPoints agg) = pick_summary (fullTranscript (transcriptions agg)) (Inr res)
                \<and> summarize_bodies w' =
                    summarize_bodies w @ replicate (Suc n) (take 4000 (fullTranscript (transcriptions agg)))))"
proof -
  from assms obtain clock w1 ctx mn w4 ts w5 s kps where
    ec: "ensure_clock e st w = (Inr clock, st', w1)" and
    au: "env_auth e (Suc (length w1)) = Inr ctx" and
    rn: "resolve_member_names e room (auth_orgId ctx) (w1 @ [CallNow, CallAuth]) = Some (Inr mn, w4)" and
    tp: "transcribe_participants e mn (object_values (participantData st')) [] w4 = Some (ts, w5)" and
    agg: "agg = assemble s kps (object_values (participantData st')) mn ts clock (env_now e (length w1))" and
    alt: "(fullTranscript ts = []
              \<and> s = ''No speech detected during this meeting.''
              \<and> kps = [''No audio captured'', ''Meeting contained silence or technical issues'']
              \<and> summarize_bodies w' = summarize_bodies w5)
            \<or> (fullTranscript ts \<noteq> []
              \<and> (\<exists>res w6. summarizeWithHuggingFace (env_summarize e) (fullTranscript ts) w5 = Some (Inr res, w6)
                    \<and> (s, kps) = pick_summary (fullTranscript ts) (Inr res)
                    \<and> summarize_bodies w' = summarize_bodies w6))"
    by (rule stopMeeting_cases)
  have q1: "summarize_bodies w1 = summarize_bodies w"
    using ensure_clock_quiet[OF ec] by auto
  have q4: "summarize_bodies w4 = summarize_bodies w"
    using resolve_member_names_quiet[OF rn] q1 by simp
  have q5: "summarize_bodies w5 = summarize_bodies w"
    using transcribe_participants_quiet[OF tp] q4 by simp
  have tr: "transcriptions agg = ts" "summary agg = s" "keyPoints agg = kps" by (simp_all add: agg)
  from alt show ?thesis
  proof
    assume "fullTranscript ts = []
              \<and> s = ''No speech detected during this meeting.''
              \<and> kps = [''No audio captured'', ''Meeting contained silence or technical issues'']
              \<and> summarize_bodies w' = summarize_bodies w5"
    with q5 tr show ?thesis by simp
  next
    assume r: "fullTranscript ts \<noteq> []
              \<and> (\<exists>res w6. summarizeWithHuggingFace (env_summarize e) (fullTranscript ts) w5 = Some (Inr res, w6)
                    \<and> (s, kps) = pick_summary (fullTranscript ts) (Inr res)
                    \<and> summarize_bodies w' = summarize_bodies w6)"
    then obtain res w6 where
      sm: "summarizeWithHuggingFace (env_summarize e) (fullTranscript ts) w5 = Some (Inr res, w6)" and
      pk: "(s, kps) = pick_summary (fullTranscript ts) (Inr res)" and
      q6: "summarize_bodies w' = summarize_bodies w6" by auto
    from summarize_bodies_of_run[OF sm] obtain n where
      "summarize_bodies w6 = summarize_bodies w5 @ replicate (Suc n) (take 4000 (fullTranscript ts))"
      by auto
    with q5 q6 have body: "summarize_bodies w' =
        summarize_bodies w @ replicate (Suc n) (take 4000 (fullTranscript ts))" by simp
    have "fullTranscript (transcriptions agg) \<noteq> []
            \<and> (\<exists>res w5 w6 n.
                  summarizeWithHuggingFace (env_summarize e) (fullTranscript (transcriptions agg)) w5
                    = Some (Inr res, w6)
                \<and> (summary agg, keyPoints agg) = pick_summary (fullTranscript (transcriptions agg)) (Inr res)
                \<and> summarize_bodies w' =
                    summarize_bodies w @ replicate (Suc n) (take 4000 (fullTranscript (transcriptions agg))))"
      unfolding tr using r sm pk body by blast
    then show ?thesis by (rule disjI2)
  qed
qed



text \<open>
  C3. The claim: the combined transcript is the join of the non-empty entries only
  (\<open>spec_combined_transcript\<close> words it as the specification does), and an entry with
  empty text contributes nothing. Lines 529-532 join every entry. Alice said nothing and
  Bob said \<open>hello\<close>: the transcript sent to the summarisation service holds the line of
  Alice all the same, where the join of the non-empty entries has the line of Bob only.
  With Alice alone the transcript is \<open>Alice:\<close>, not empty, and the service is asked,
  although lines 540-556 provide the answer \<open>No speech detected\<close>, with the participants
  and their entries in the aggregate, for a session where nobody was heard. (No session
  with a participant reaches those lines: \<open>fullTranscript_nonempty\<close>.)
\<close>

theorem silent_participant_line_in_transcript:
  "(case stopMeeting talk_env ''room'' bob_recorded [] of
      Some (Inr agg, st', w') \<Rightarrow>
        map t_text (transcriptions agg) = [[], ''hello'']
        \<and> summarize_bodies w' = [''Alice: '' @ [CHR 0x0A] @ ''bob: hello'']
        \<and> spec_combined_transcript (transcriptions agg) = ''bob: hello''
        \<and> fullTranscript (transcriptions agg) \<noteq> spec_combined_transcript (transcriptions agg)
    | _ \<Rightarrow> False)
   \<and> (case stopMeeting base_env ''room'' alice_registered [] of
        Some (Inr agg, st', w') \<Rightarrow>
          map t_text (transcriptions agg) = [[]]
          \<and> spec_combined_transcript (transcriptions agg) = []
          \<and> fullTranscript (transcriptions agg) = ''Alice:''
          \<and> summarize_bodies w' = [''Alice:'']
          \<and> summary agg \<noteq> ''No speech detected during this meeting.''
      | _ \<Rightarrow> False)"
  by (simp add: model_simps sample_simps talk_env_def spec_combined_transcript_def)

text \<open>
  C6, as the code has it. With at least one participant the orchestrator is asked. Its
  summary and key points are used unchanged when the summary is not empty, holds neither
  \<open>error\<close> nor \<open>Error\<close>, and the key point list is not empty. In every other case the
  summary is \<open>Meeting discussion: \<close> followed by the first 500 characters of the combined
  transcript, and by three dots when the transcript is longer, and the key points are the
  first 5 trimmed fragments of the transcript longer than 10 characters.
\<close>

theorem fallback_summary_rule:
  assumes "stopMeeting e room st w = Some (Inr agg, st', w')"
    and "participantData st \<noteq> []"
  shows "\<exists>res w5 w6.
           summarizeWithHuggingFace (env_summarize e) (fullTranscript (transcriptions agg)) w5
             = Some (Inr res, w6)
         \<and> (if r_summary res \<noteq> []
                \<and> \<not> (js_includes (r_summary res) ''error'' \<or> js_includes (r_summary res) ''Error''
                       \<or> js_includes (r_summary res) ''API error'')
                \<and> r_keyPoints res \<noteq> []
             then summary agg = r_summary res \<and> keyPoints agg = r_keyPoints res
             else summary agg =
                    ''Meeting discussion: '' @ take 500 (fullTranscript (transcriptions agg))
                      @ (if 500 < length (fullTranscript (transcriptions agg)) then ''...'' else [])
                  \<and> keyPoints agg =
                      take 5 (filter (\<lambda>f. 10 < length f)
                        (map trim (js_split sentence_end (fullTranscript (transcriptions agg))))))"
proof -
  have "transcriptions agg \<noteq> []"
    using run_entries[OF assms(1)] assms(2) by auto
  then have "fullTranscript (transcriptions agg) \<noteq> []" by (rule fullTranscript_nonempty)
  with run_bodies[OF assms(1)] obtain res w5 w6 where
    sm: "summarizeWithHuggingFace (env_summarize e) (fullTranscript (transcriptions agg)) w5
           = Some (Inr res, w6)" and
    pk: "(summary agg, keyPoints agg) = pick_summary (fullTranscript (transcriptions agg)) (Inr res)"
    by auto
  from pk have "if r_summary res \<noteq> []
                \<and> \<not> (js_includes (r_summary res) ''error'' \<or> js_includes (r_summary res) ''Error''
                       \<or> js_includes (r_summary res) ''API error'')
                \<and> r_keyPoints res \<noteq> []
             then summary agg = r_summary res \<and> keyPoints agg = r_keyPoints res
             else summary agg =
                    ''Meeting discussion: '' @ take 500 (fullTranscript (transcriptions agg))
                      @ (if 500 < length (fullTranscript (transcriptions agg)) then ''...'' else [])
                  \<and> keyPoints agg =
                      take 5 (filter (\<lambda>f. 10 < length f)
                        (map trim (js_split sentence_end (fullTranscript (transcriptions agg)))))"
    by (auto simp: pick_summary_def is_error_text_def fallback_summary_def fallback_key_points_def
             split: if_splits)
  with sm show ?thesis by blast
qed

theorem fallback_summary_rule_witness:
  "(\<exists>agg st' w'. stopMeeting fine_env ''room'' alice_registered [] = Some (Inr agg, st', w')
       \<and> summary agg = ''Meeting discussion: Alice:'' \<and> keyPoints agg = [])
   \<and> (\<exists>agg st' w'. stopMeeting base_env ''room'' alice_registered [] = Some (Inr agg, st', w')
       \<and> summary agg = ''We shipped the feature.'' \<and> keyPoints agg = [''We shipped the feature''])"
proof -
  obtain agg0 st0 w0 where r0: "stopMeeting fine_env ''room'' alice_registered [] = Some (Inr agg0, st0, w0)"
    by (simp add: model_simps sample_simps fine_env_def)
  obtain agg1 st1 w1 where r1: "stopMeeting base_env ''room'' alice_registered [] = Some (Inr agg1, st1, w1)"
    by (simp add: model_simps sample_simps)
  have p: "participantData alice_registered \<noteq> []" by (simp add: model_simps sample_simps)
  note fallback_summary_rule[OF r0 p] fallback_summary_rule[OF r1 p]
  moreover have "summary agg0 = ''Meeting discussion: Alice:'' \<and> keyPoints agg0 = []"
    using r0 by (simp add: model_simps sample_simps fine_env_def) auto
  moreover have "summary agg1 = ''We shipped the feature.'' \<and> keyPoints agg1 = [''We shipped the feature'']"
    using r1 by (simp add: model_simps sample_simps) auto
  ultimately show ?thesis using r0 r1 by blast
qed

text \<open>The claim as written fails: the orchestrator's summary \<open>Fine\<close> is neither empty nor
  an error, yet it is replaced, because its key point list is empty; and the replacement
  is more than the truncated transcript.\<close>

theorem summary_unchanged_counterexample:
  "summarizeWithHuggingFace (env_summarize fine_env) ''Alice:'' [CallNow, CallAuth, CallRoom ''room'']
     = Some (Inr \<lparr>r_summary = ''Fine'', r_keyPoints = []\<rparr>,
             [CallNow, CallAuth, CallRoom ''room'', CallSummarize ''Alice:''])
   \<and> \<not> is_error_text ''Fine''
   \<and> (case stopMeeting fine_env ''room'' alice_registered [] of
         Some (Inr agg, st', w') \<Rightarrow>
           fullTranscript (transcriptions agg) = ''Alice:''
           \<and> summary agg = ''Meeting discussion: Alice:''
           \<and> summary agg \<noteq> ''Fine''
           \<and> summary agg \<noteq> take 500 (fullTranscript (transcriptions agg))
       | _ \<Rightarrow> False)"
  by (simp add: model_simps sample_simps fine_env_def)

subsection \<open>The transcription orchestrator\<close>

lemma poll_loop_keeps_null:
  assumes "poll_loop poll jid status result w = Some r"
  shows "(\<forall>t j. case poll t j of Inl err \<Rightarrow> True | Inr pr \<Rightarrow> poll_status pr \<noteq> ''completed'')
         \<longrightarrow> (status = ''completed'' \<longrightarrow> result = None)
         \<longrightarrow> (case fst r of Inl err \<Rightarrow> True
              | Inr (s, res) \<Rightarrow> s = ''completed'' \<longrightarrow> res = None)"
proof (rule poll_loop.raw_induct[OF _ assms], goal_cases)
  case (1 f poll jid status result w r)
  show ?case
  proof (intro impI)
    assume nc: "\<forall>t j. case poll t j of Inl err \<Rightarrow> True | Inr pr \<Rightarrow> poll_status pr \<noteq> ''completed''"
      and inv: "status = ''completed'' \<longrightarrow> result = None"
    show "case fst r of Inl err \<Rightarrow> True | Inr (s, res) \<Rightarrow> s = ''completed'' \<longrightarrow> res = None"
    proof (cases "status \<noteq> ''completed'' \<and> status \<noteq> ''error''")
      case False
      with 1(2) inv show ?thesis by auto
    next
      case True
      show ?thesis
      proof (cases "poll (length w) jid")
        case (Inl err)
        with 1(2) True show ?thesis by auto
      next
        case (Inr pr)
        with 1(2) True have "f poll jid (poll_status pr) (Some pr) (w @ [CallPoll jid]) = Some r"
          by simp
        moreover have "poll_status pr \<noteq> ''completed''"
          using nc[rule_format, of "length w" jid] Inr by simp
        ultimately show ?thesis using 1(1) nc by blast
      qed
    qed
  qed
qed

lemma transcribe_try_never_completed:
  assumes "never_completed e" and "transcribe_try e blob w = Some (Inr txt, w')"
  shows "txt = []"
proof -
  have nc: "\<forall>t j. case env_poll e t j of Inl err \<Rightarrow> True | Inr pr \<Rightarrow> poll_status pr \<noteq> ''completed''"
    using assms(1) by (simp add: never_completed_def)
  show ?thesis
  proof (cases "env_upload e (length w) blob")
    case (Inl err)
    with assms(2) show ?thesis by (simp add: transcribe_try_def Let_def)
  next
    case up: (Inr url)
    show ?thesis
    proof (cases "env_submit e (length (w @ [CallUpload blob])) url")
      case (Inl err)
      with assms(2) up show ?thesis by (simp add: transcribe_try_def Let_def)
    next
      case sb: (Inr j)
      show ?thesis
      proof (cases "poll_loop (env_poll e) (job_id j) (job_status j) None
                      (w @ [CallUpload blob, CallSubmit url])")
        case None
        with assms(2) up sb show ?thesis by (simp add: transcribe_try_def Let_def)
      next
        case (Some r)
        from poll_loop_keeps_null[OF Some] nc
        have inv: "case fst r of Inl err \<Rightarrow> True | Inr (s, res) \<Rightarrow> s = ''completed'' \<longrightarrow> res = None"
          by simp
        obtain out w4 where r: "r = (out, w4)" by (cases r) auto
        show ?thesis
        proof (cases out)
          case (Inl err)
          with assms(2) up sb Some r show ?thesis by (simp add: transcribe_try_def Let_def)
        next
          case (Inr sr)
          obtain s res where sr: "sr = (s, res)" by (cases sr) auto
          from inv r Inr sr have "s = ''completed'' \<longrightarrow> res = None" by simp
          with assms(2) up sb Some r Inr sr show ?thesis
            by (auto simp: transcribe_try_def Let_def split: if_splits)
        qed
      qed
    qed
  qed
qed

lemma transcribe_never_completed:
  assumes "never_completed e" and "transcribeWithAssemblyAI e blob w = Some (Inr txt, w')"
  shows "txt = []"
  using assms(2) transcribe_try_never_completed[OF assms(1)]
  by (auto simp: transcribeWithAssemblyAI_def split: option.splits sum.splits prod.splits)

lemma transcribe_participant_never_completed:
  assumes "never_completed e" and "transcribe_participant e mn p w = Some (entry, w')"
  shows "t_text entry = []"
  using assms(2) transcribe_never_completed[OF assms(1)]
  by (auto simp: transcribe_participant_def Let_def split: if_splits option.splits sum.splits prod.splits)

lemma transcribe_participants_never_completed:
  assumes "never_completed e"
  shows "transcribe_participants e mn ps acc w = Some (ts, w') \<Longrightarrow>
           \<forall>t \<in> set acc. t_text t = [] \<Longrightarrow> \<forall>t \<in> set ts. t_text t = []"
proof (induction ps arbitrary: acc w)
  case Nil
  then show ?case by simp
next
  case (Cons p ps)
  from Cons.prems(1) obtain entry w1 where
    a: "transcribe_participant e mn p w = Some (entry, w1)" and
    b: "transcribe_participants e mn ps (acc @ [entry]) w1 = Some (ts, w')"
    by (auto split: option.splits prod.splits)
  have "t_text entry = []" using transcribe_participant_never_completed[OF assms a] .
  with Cons.prems(2) have "\<forall>t \<in> set (acc @ [entry]). t_text t = []" by simp
  with Cons.IH[OF b] show ?case .
qed

lemma poll_loop_returns:
  "(case poll (length w + n) jid of Inl err \<Rightarrow> True
    | Inr r \<Rightarrow> poll_status r = ''completed'' \<or> poll_status r = ''error'')
   \<Longrightarrow> \<exists>r. poll_loop poll jid status result w = Some r"
proof (induction n arbitrary: status result w)
  case 0
  show ?case
  proof (cases "status \<noteq> ''completed'' \<and> status \<noteq> ''error''")
    case False
    then show ?thesis by (subst poll_loop.simps) auto
  next
    case True
    show ?thesis
    proof (cases "poll (length w) jid")
      case (Inl err)
      with True show ?thesis by (subst poll_loop.simps) auto
    next
      case (Inr pr)
      with 0 have "poll_status pr = ''completed'' \<or> poll_status pr = ''error''" by simp
      then have "poll_loop poll jid (poll_status pr) (Some pr) (w @ [CallPoll jid])
                   = Some (Inr (poll_status pr, Some pr), w @ [CallPoll jid])"
        by (subst poll_loop.simps) auto
      with True Inr show ?thesis by (subst poll_loop.simps) auto
    qed
  qed
next
  case (Suc n)
  show ?case
  proof (cases "status \<noteq> ''completed'' \<and> status \<noteq> ''error''")
    case False
    then show ?thesis by (subst poll_loop.simps) auto
  next
    case True
    show ?thesis
    proof (cases "poll (length w) jid")
      case (Inl err)
      with True show ?thesis by (subst poll_loop.simps) auto
    next
      case (Inr pr)
      have "\<exists>r. poll_loop poll jid (poll_status pr) (Some pr) (w @ [CallPoll jid]) = Some r"
        using Suc.prems by (intro Suc.IH) simp
      with True Inr show ?thesis by (subst poll_loop.simps) auto
    qed
  qed
qed

lemma transcribe_try_returns:
  assumes "polls_settle e"
  shows "\<exists>r w'. transcribe_try e blob w = Some (r, w')"
proof -
  have loop: "\<exists>r. poll_loop (env_poll e) jid status result w0 = Some r" for jid status result w0
  proof -
    from assms obtain n where
      "case env_poll e (length w0 + n) jid of Inl err \<Rightarrow> True
       | Inr r \<Rightarrow> poll_status r = ''completed'' \<or> poll_status r = ''error''"
      unfolding polls_settle_def by blast
    then show ?thesis by (rule poll_loop_returns)
  qed
  show ?thesis
  proof (cases "env_upload e (length w) blob")
    case (Inl err)
    then show ?thesis by (simp add: transcribe_try_def Let_def)
  next
    case up: (Inr url)
    show ?thesis
    proof (cases "env_submit e (length (w @ [CallUpload blob])) url")
      case (Inl err)
      with up show ?thesis by (simp add: transcribe_try_def Let_def)
    next
      case sb: (Inr j)
      from loop obtain r where
        "poll_loop (env_poll e) (job_id j) (job_status j) None
           (w @ [CallUpload blob, CallSubmit url]) = Some r" by blast
      with up sb show ?thesis
        by (cases r) (auto simp: transcribe_try_def Let_def split: sum.splits option.splits)
    qed
  qed
qed

lemma transcribe_returns:
  assumes "polls_settle e"
  shows "\<exists>r w'. transcribeWithAssemblyAI e blob w = Some (r, w')"
proof (cases "env_write_temp e (length w) blob")
  case None
  from transcribe_try_returns[OF assms] obtain r w' where
    "transcribe_try e blob (w @ [CallWriteTemp blob]) = Some (r, w')" by blast
  with None show ?thesis by (cases r) (auto simp: transcribeWithAssemblyAI_def)
next
  case (Some err)
  then show ?thesis by (simp add: transcribeWithAssemblyAI_def)
qed

text \<open>
  C5, as the code has it. Let the transcription service never report \<^verbatim>\<open>completed\<close>. If
  the audio can be staged in its temporary file and every job reaches a terminal status
  (or a poll throws), \<^verbatim>\<open>transcribeWithAssemblyAI\<close> returns the empty string; a failure
  to stage the file is raised to the caller. In every aggregate that \<^verbatim>\<open>stopMeeting\<close>
  returns, every entry has empty text.
\<close>

theorem errored_service_gives_empty_text:
  assumes "never_completed e"
  shows "(polls_settle e \<and> env_write_temp e (length w) blob = None
            \<longrightarrow> (\<exists>w'. transcribeWithAssemblyAI e blob w = Some (Inr [], w')))
       \<and> (\<forall>err. env_write_temp e (length w) blob = Some err
            \<longrightarrow> transcribeWithAssemblyAI e blob w = Some (Inl err, w @ [CallWriteTemp blob]))
       \<and> (\<forall>agg st' w'. stopMeeting e room st w0 = Some (Inr agg, st', w')
            \<longrightarrow> (\<forall>t \<in> set (transcriptions agg). t_text t = []))"
proof -
  have one: "polls_settle e \<and> env_write_temp e (length w) blob = None
            \<longrightarrow> (\<exists>w'. transcribeWithAssemblyAI e blob w = Some (Inr [], w'))"
  proof
    assume h: "polls_settle e \<and> env_write_temp e (length w) blob = None"
    then obtain r w' where tr: "transcribeWithAssemblyAI e blob w = Some (r, w')"
      using transcribe_returns by blast
    show "\<exists>w'. transcribeWithAssemblyAI e blob w = Some (Inr [], w')"
    proof (cases r)
      case (Inl err)
      with tr h show ?thesis
        by (auto simp: transcribeWithAssemblyAI_def split: option.splits sum.splits prod.splits)
    next
      case (Inr said)
      with tr transcribe_never_completed[OF assms, of blob w said w'] show ?thesis by auto
    qed
  qed
  have two: "\<forall>err. env_write_temp e (length w) blob = Some err
            \<longrightarrow> transcribeWithAssemblyAI e blob w = Some (Inl err, w @ [CallWriteTemp blob])"
    by (simp add: transcribeWithAssemblyAI_def)
  have three: "\<forall>agg st' w'. stopMeeting e room st w0 = Some (Inr agg, st', w')
            \<longrightarrow> (\<forall>t \<in> set (transcriptions agg). t_text t = [])"
  proof (intro allI impI)
    fix agg st' w'
    assume run: "stopMeeting e room st w0 = Some (Inr agg, st', w')"
    from run obtain clock w1 ctx mn w4 ts w5 s kps where
      ec: "ensure_clock e st w0 = (Inr clock, st', w1)" and
      au: "env_auth e (Suc (length w1)) = Inr ctx" and
      rn: "resolve_member_names e room (auth_orgId ctx) (w1 @ [CallNow, CallAuth]) = Some (Inr mn, w4)" and
      tp: "transcribe_participants e mn (object_values (participantData st')) [] w4 = Some (ts, w5)" and
      agg: "agg = assemble s kps (object_values (participantData st')) mn ts clock (env_now e (length w1))" and
      alt: "(fullTranscript ts = []
              \<and> s = ''No speech detected during this meeting.''
              \<and> kps = [''No audio captured'', ''Meeting contained silence or technical issues'']
              \<and> summarize_bodies w' = summarize_bodies w5)
            \<or> (fullTranscript ts \<noteq> []
              \<and> (\<exists>res w6. summarizeWithHuggingFace (env_summarize e) (fullTranscript ts) w5 = Some (Inr res, w6)
                    \<and> (s, kps) = pick_summary (fullTranscript ts) (Inr res)
                    \<and> summarize_bodies w' = summarize_bodies w6))"
      by (rule stopMeeting_cases)
    have "\<forall>t \<in> set ts. t_text t = []"
      using transcribe_participants_never_completed[OF assms tp] by simp
    then show "\<forall>t \<in> set (transcriptions agg). t_text t = []" by (simp add: agg)
  qed
  from one two three show ?thesis by blast
qed

theorem errored_service_gives_empty_text_witness:
  "(\<exists>w'. transcribeWithAssemblyAI base_env [1, 2] [] = Some (Inr [], w'))
   \<and> transcribeWithAssemblyAI full_disk_env [1, 2] [] = Some (Inl (Thrown ''ENOSPC''), [CallWriteTemp [1, 2]])
   \<and> (\<exists>agg st' w'. stopMeeting base_env ''room'' bob_recorded [] = Some (Inr agg, st', w')
        \<and> map t_text (transcriptions agg) = [[], []])"
proof -
  have nc: "never_completed base_env" by (simp add: never_completed_def base_env_def)
  have ps: "polls_settle base_env" by (simp add: polls_settle_def base_env_def)
  have nc': "never_completed full_disk_env"
    by (simp add: never_completed_def base_env_def full_disk_env_def)
  obtain agg st' w' where r: "stopMeeting base_env ''room'' bob_recorded [] = Some (Inr agg, st', w')"
    by (simp add: model_simps sample_simps)
  have len: "length (transcriptions agg) = 2"
    using r by (simp add: model_simps sample_simps) auto
  from errored_service_gives_empty_text[OF nc, of "[]" "[1, 2]" "''room''" bob_recorded "[]"] ps r
  have a: "\<exists>w'. transcribeWithAssemblyAI base_env [1, 2] [] = Some (Inr [], w')"
    and c: "\<forall>t \<in> set (transcriptions agg). t_text t = []"
    by (auto simp: base_env_def)
  from errored_service_gives_empty_text[OF nc', of "[]" "[1, 2]" "''room''" bob_recorded "[]"]
  have b: "transcribeWithAssemblyAI full_disk_env [1, 2] [] = Some (Inl (Thrown ''ENOSPC''), [CallWriteTemp [1, 2]])"
    by (simp add: full_disk_env_def)
  have "map t_text (transcriptions agg) = [[], []]"
    using len c by (cases "transcriptions agg"; cases "tl (transcriptions agg)") auto
  with r have "\<exists>agg st' w'. stopMeeting base_env ''room'' bob_recorded [] = Some (Inr agg, st', w')
        \<and> map t_text (transcriptions agg) = [[], []]"
    by (intro exI conjI)
  with a b show ?thesis by (intro conjI)
qed

text \<open>The claim as written fails: the service reports \<^verbatim>\<open>error\<close> at every poll, the disk is
  full, and the failure of \<^verbatim>\<open>blobToTempFile\<close> (line 175, before the \<^verbatim>\<open>try\<close>) leaves the
  function as an exception.\<close>

theorem transcribe_raises_counterexample:
  "(\<forall>t j. env_poll full_disk_env t j = Inr \<lparr>poll_status = ''error'', poll_text = None\<rparr>)
   \<and> transcribeWithAssemblyAI full_disk_env [1, 2] []
       = Some (Inl (Thrown ''ENOSPC''), [CallWriteTemp [1, 2]])"
  by (simp add: model_simps sample_simps full_disk_env_def)

subsection \<open>The participants of the aggregate\<close>

lemma list_all_update:
  "list_all Q al \<Longrightarrow> Q (k, v) \<Longrightarrow> list_all Q (AList.update k v al)"
  by (induction al) auto

lemma store_lookup_id:
  "store_ok st \<Longrightarrow> map_of (participantData st) k = Some p \<Longrightarrow> p_id p = k"
  by (auto simp: store_ok_def list_all_iff dest: map_of_SomeD)

lemma store_ok_own_key:
  "store_ok st \<Longrightarrow> map_of (participantData st) k = Some p \<Longrightarrow> k \<noteq> ''__proto__''"
  by (force simp: store_ok_def dest: map_of_SomeD)

lemma lookup_own_record:
  "lookup_participant st k = OwnRecord p \<longleftrightarrow> map_of (participantData st) k = Some p"
  by (auto simp: lookup_participant_def proto_field_def split: option.splits if_splits)



lemma store_ok_clock [simp]: "store_ok (st\<lparr>meetingStartTime := c\<rparr>) = store_ok st"
  by (simp add: store_ok_def)

lemma store_ok_proto [simp]: "store_ok (st\<lparr>participantDataProto := r\<rparr>) = store_ok st"
  by (simp add: store_ok_def)

lemma store_ok_update:
  assumes "store_ok st" and "p_id r = k" and "k \<noteq> ''__proto__''"
  shows "store_ok (st\<lparr>participantData := AList.update k r (participantData st)\<rparr>)"
  using assms
  by (auto simp: store_ok_def dom_update intro!: distinct_update list_all_update)







text \<open>The other actions keep the shape of the store as well.\<close>

lemma store_ok_Init: "store_ok (snd (Init start st))"
  by (simp add: Init_def store_ok_def Let_def)

lemma store_ok_stopRecorder:
  assumes "store_ok st" and "stopRecorder e ident stopTime st w = Some (r, st', w')"
  shows "store_ok st'"
proof (cases "lookup_participant st ident")
  case Missing
  with assms show ?thesis by (simp add: stopRecorder_def)
next
  case (OwnRecord p)
  then have m: "map_of (participantData st) ident = Some p" by (simp only: lookup_own_record)
  have "p_id (p\<lparr>p_isFinished := True\<rparr>) = ident"
    using store_lookup_id[OF assms(1) m] by simp
  from store_ok_update[OF assms(1) this store_ok_own_key[OF assms(1) m]]
  show ?thesis
    using assms OwnRecord
    by (auto simp: stopRecorder_def finish_recorder_def Let_def
             split: if_splits option.splits sum.splits prod.splits)
next
  case (ProtoRecord p)
  with assms show ?thesis
    by (auto simp: stopRecorder_def finish_recorder_def Let_def
             split: if_splits option.splits sum.splits prod.splits)
next
  case (Foreign b)
  with assms show ?thesis by (simp add: stopRecorder_def split: if_splits)
qed

lemma store_ok_stopMeeting:
  assumes "store_ok st" and "stopMeeting e room st w = Some (r, st', w')"
  shows "store_ok st'"
proof -
  from stopMeeting_state[OF assms(2)] obtain c w1 where "ensure_clock e st w = (c, st', w1)"
    by blast
  from ensure_clock_quiet[OF this] have "participantData st' = participantData st" by simp
  with assms(1) show ?thesis by (simp add: store_ok_def)
qed


















subsection \<open>Ending the session returns an aggregate\<close>








text \<open>The builders of the aggregate do not consult the persistence sink.\<close>

lemma derive_clock_sink [simp]:
  "derive_clock (e\<lparr>env_insert := ins, env_verify := ver\<rparr>) st w = derive_clock e st w"
  by (simp add: derive_clock_def cong: if_cong)

lemma ensure_clock_sink [simp]:
  "ensure_clock (e\<lparr>env_insert := ins, env_verify := ver\<rparr>) st w = ensure_clock e st w"
  by (simp add: ensure_clock_def cong: if_cong option.case_cong sum.case_cong prod.case_cong)

lemma getOrganizationMemberNames_sink [simp]:
  "getOrganizationMemberNames (e\<lparr>env_insert := ins, env_verify := ver\<rparr>) orgId w
     = getOrganizationMemberNames e orgId w"
  by (simp add: getOrganizationMemberNames_def cong: if_cong option.case_cong sum.case_cong prod.case_cong)

lemma resolve_member_names_sink [simp]:
  "resolve_member_names (e\<lparr>env_insert := ins, env_verify := ver\<rparr>) room orgId w
     = resolve_member_names e room orgId w"
  by (simp add: resolve_member_names_def cong: if_cong option.case_cong sum.case_cong prod.case_cong)

lemma transcribe_try_sink [simp]:
  "transcribe_try (e\<lparr>env_insert := ins, env_verify := ver\<rparr>) blob w = transcribe_try e blob w"
  by (simp add: transcribe_try_def Let_def cong: if_cong option.case_cong sum.case_cong prod.case_cong)

lemma transcribeWithAssemblyAI_sink [simp]:
  "transcribeWithAssemblyAI (e\<lparr>env_insert := ins, env_verify := ver\<rparr>) blob w
     = transcribeWithAssemblyAI e blob w"
  by (simp add: transcribeWithAssemblyAI_def cong: if_cong option.case_cong sum.case_cong prod.case_cong)

lemma transcribe_participant_sink [simp]:
  "transcribe_participant (e\<lparr>env_insert := ins, env_verify := ver\<rparr>) mn p w
     = transcribe_participant e mn p w"
  by (simp add: transcribe_participant_def Let_def cong: if_cong option.case_cong sum.case_cong prod.case_cong)

lemma transcribe_participants_sink [simp]:
  "transcribe_participants (e\<lparr>env_insert := ins, env_verify := ver\<rparr>) mn ps acc w
     = transcribe_participants e mn ps acc w"
  by (induction ps arbitrary: acc w) (simp_all cong: option.case_cong prod.case_cong)


text \<open>The session clock of \<^verbatim>\<open>stopMeeting\<close>: the established one, or else the earliest
  offset, or else the wall clock; and what becomes of a clock outside the range of
  \<^verbatim>\<open>Date\<close>.\<close>

lemma ensure_clock_established:
  "clock_set (meetingStartTime st)
     \<Longrightarrow> \<exists>c. meetingStartTime st = Some c \<and> ensure_clock e st w = (Inr c, st, w)"
  by (auto simp: ensure_clock_def clock_set_def split: option.splits)

lemma ensure_clock_earliest:
  assumes "\<not> clock_set (meetingStartTime st)" and "participantData st \<noteq> []"
    and "length (participantData st) \<le> env_max_arguments e"
  shows "ensure_clock e st w =
           (if date_ok (list_min (map p_offset (object_values (participantData st))))
            then Inr (list_min (map p_offset (object_values (participantData st))))
            else Inl RangeError,
            st\<lparr>meetingStartTime :=
                  Some (list_min (map p_offset (object_values (participantData st))))\<rparr>, w)"
proof -
  have "length (object_values (participantData st)) > 0"
       "length (object_values (participantData st)) \<le> env_max_arguments e"
    using assms(2,3) by (simp_all add: length_object_values)
  then have "derive_clock e st w =
           (if date_ok (list_min (map p_offset (object_values (participantData st))))
            then Inr (list_min (map p_offset (object_values (participantData st))))
            else Inl RangeError,
            st\<lparr>meetingStartTime :=
                  Some (list_min (map p_offset (object_values (participantData st))))\<rparr>, w)"
    by (simp add: derive_clock_def Let_def)
  then show ?thesis
    using assms(1) by (simp add: ensure_clock_def clock_set_def split: option.splits)
qed

lemma ensure_clock_wall:
  assumes "\<not> clock_set (meetingStartTime st)" and "participantData st = []"
  shows "ensure_clock e st w =
           (if date_ok (env_now e (length w)) then Inr (env_now e (length w)) else Inl RangeError,
            st\<lparr>meetingStartTime := Some (env_now e (length w))\<rparr>, w @ [CallNow])"
proof -
  have "derive_clock e st w =
           (if date_ok (env_now e (length w)) then Inr (env_now e (length w)) else Inl RangeError,
            st\<lparr>meetingStartTime := Some (env_now e (length w))\<rparr>, w @ [CallNow])"
    using assms(2) by (simp add: derive_clock_def Let_def object_values_def object_entries_def)
  then show ?thesis
    using assms(1) by (simp add: ensure_clock_def clock_set_def split: option.splits)
qed

lemma ensure_clock_too_many:
  assumes "\<not> clock_set (meetingStartTime st)"
    and "env_max_arguments e < length (participantData st)"
  shows "ensure_clock e st w = (Inl RangeError, st, w)"
proof -
  have "length (object_values (participantData st)) > 0"
       "\<not> length (object_values (participantData st)) \<le> env_max_arguments e"
    using assms(2) by (auto simp: length_object_values)
  then have "derive_clock e st w = (Inl RangeError, st, w)"
    by (simp add: derive_clock_def Let_def)
  then show ?thesis
    using assms(1) by (simp add: ensure_clock_def clock_set_def split: option.splits)
qed

lemma stopMeeting_clock_out_of_range:
  "ensure_clock e st w = (Inl err, st1, w1) \<Longrightarrow> stopMeeting e room st w = Some (Inl err, st1, w1)"
  "ensure_clock e st w = (Inr clock, st1, w1) \<Longrightarrow> \<not> date_ok clock
     \<Longrightarrow> stopMeeting e room st w = Some (Inl RangeError, st1, w1 @ [CallNow])"
  by (simp_all add: stopMeeting_def Let_def)






end
